theory Spec2Isabelle
  imports Complex_Main "HOL-Library.Log_Nat"
begin

section \<open>JavaScript values\<close>

subsection \<open>Numbers: IEEE 754 binary64\<close>

text \<open>
  A JavaScript Number is a binary64 value. A finite one is represented by the rational it
  denotes (\<open>Fin\<close>); the two zeros are identified (no operation modelled here tells them
  apart: comparisons, truthiness and \<open>toFixed\<close> followed by \<open>Number\<close> agree on them).
  \<open>rd\<close> rounds a rational to the nearest binary64 value, ties to even: to a multiple
  of \<open>2 powi (e - 52)\<close>, where \<open>e\<close> is the binary exponent of the argument, or
  \<open>-1022\<close> in the subnormal range. \<open>to_number\<close> adds the overflow to an infinity,
  which happens when the rounded value reaches \<open>2 powi 1024\<close>.
\<close>

datatype number = Fin rat | PInf | NInf | NaN

text \<open>The power \<open>2 powi k\<close>, computed on integers.\<close>

definition two_powi :: "int \<Rightarrow> rat" where
  "two_powi k = (if 0 \<le> k then of_int (2 ^ nat k) else 1 / of_int (2 ^ nat (- k)))"

definition pick_log :: "rat \<Rightarrow> int \<Rightarrow> int" where
  "pick_log x e0 = (if two_powi e0 \<le> x then e0 else e0 - 1)"

text \<open>
  \<open>ilog2 x\<close> is the floor of the binary logarithm of \<open>\<bar>x\<bar>\<close>, for \<open>x\<close> other than 0:
  one of two candidates that the bit lengths of numerator and denominator give.
\<close>

definition ilog2 :: "rat \<Rightarrow> int" where
  "ilog2 x = (case quotient_of \<bar>x\<bar> of (p, q) \<Rightarrow> pick_log \<bar>x\<bar> (bitlen p - bitlen q))"

definition nearest_even :: "int \<Rightarrow> rat \<Rightarrow> int" where
  "nearest_even n r = (if r < 1/2 then n else if 1/2 < r then n + 1 else if even n then n else n + 1)"

definition frac_part :: "rat \<Rightarrow> int \<Rightarrow> rat" where
  "frac_part q n = q - of_int n"

definition round_half_even :: "rat \<Rightarrow> int" where
  "round_half_even q = nearest_even \<lfloor>q\<rfloor> (frac_part q \<lfloor>q\<rfloor>)"

definition round_to :: "rat \<Rightarrow> rat \<Rightarrow> rat" where
  "round_to u x = of_int (round_half_even (x / u)) * u"

definition rd :: "rat \<Rightarrow> rat" where
  "rd x = (if x = 0 then 0 else round_to (two_powi (max (ilog2 x) (- 1022) - 52)) x)"

definition overflow :: "rat \<Rightarrow> number" where
  "overflow y = (if y = 0 then Fin 0
                 else if 1024 \<le> ilog2 y then (if 0 < y then PInf else NInf)
                 else Fin y)"

definition to_number :: "rat \<Rightarrow> number" where
  "to_number x = overflow (rd x)"

text \<open>A decimal literal of the source denotes the nearest binary64 value.\<close>

definition lit :: "rat \<Rightarrow> number" where
  "lit x = to_number x"

fun num_neg :: "number \<Rightarrow> number" where
  "num_neg (Fin a) = Fin (- a)"
| "num_neg PInf = NInf"
| "num_neg NInf = PInf"
| "num_neg NaN = NaN"

fun num_add :: "number \<Rightarrow> number \<Rightarrow> number" where
  "num_add (Fin a) (Fin b) = to_number (a + b)"
| "num_add NaN y = NaN"
| "num_add x NaN = NaN"
| "num_add PInf NInf = NaN"
| "num_add NInf PInf = NaN"
| "num_add PInf y = PInf"
| "num_add NInf y = NInf"
| "num_add (Fin a) y = y"

definition num_sub :: "number \<Rightarrow> number \<Rightarrow> number" where
  "num_sub x y = num_add x (num_neg y)"

fun num_sgn :: "number \<Rightarrow> int" where
  "num_sgn (Fin a) = (if a < 0 then - 1 else if a = 0 then 0 else 1)"
| "num_sgn PInf = 1"
| "num_sgn NInf = - 1"
| "num_sgn NaN = 0"

fun num_mul :: "number \<Rightarrow> number \<Rightarrow> number" where
  "num_mul (Fin a) (Fin b) = to_number (a * b)"
| "num_mul NaN y = NaN"
| "num_mul x NaN = NaN"
| "num_mul x y = (let s = num_sgn x * num_sgn y in
                   if s = 0 then NaN else if 0 < s then PInf else NInf)"

text \<open>The relational operator \<open><\<close>; \<open>a > b\<close> is \<open>num_less b a\<close>. Any comparison with NaN is false.\<close>

fun num_less :: "number \<Rightarrow> number \<Rightarrow> bool" where
  "num_less (Fin a) (Fin b) = (a < b)"
| "num_less NaN y = False"
| "num_less x NaN = False"
| "num_less x NInf = False"
| "num_less PInf y = False"
| "num_less NInf y = True"
| "num_less (Fin a) PInf = True"

definition num_greater :: "number \<Rightarrow> number \<Rightarrow> bool" where
  "num_greater x y = num_less y x"

text \<open>\<open>Math.min\<close> and \<open>Math.max\<close> of two arguments.\<close>

definition math_min :: "number \<Rightarrow> number \<Rightarrow> number" where
  "math_min x y = (if x = NaN \<or> y = NaN then NaN else if num_less y x then y else x)"

definition math_max :: "number \<Rightarrow> number \<Rightarrow> number" where
  "math_max x y = (if x = NaN \<or> y = NaN then NaN else if num_less x y then y else x)"

fun math_floor :: "number \<Rightarrow> number" where
  "math_floor (Fin a) = Fin (of_int \<lfloor>a\<rfloor>)"
| "math_floor x = x"

text \<open>Truthiness of a Number: zero and NaN are falsy.\<close>

fun num_truthy :: "number \<Rightarrow> bool" where
  "num_truthy (Fin a) = (a \<noteq> 0)"
| "num_truthy NaN = False"
| "num_truthy x = True"

text \<open>
  \<open>Number(x.toFixed(f))\<close>. For a finite \<open>x\<close> below \<open>10^21\<close> in magnitude, \<open>toFixed\<close>
  prints the integer \<open>n\<close> for which \<open>n / 10^f\<close> is closest to the exact value of \<open>x\<close>, the
  larger one on a tie, working on \<open>-x\<close> when \<open>x\<close> is negative; \<open>Number\<close> reads the
  decimal string back as the nearest binary64 value. From \<open>10^21\<close> on \<open>toFixed\<close> prints
  the number as \<open>toString\<close> does, and reading that back gives \<open>x\<close>.
\<close>

definition fixed_digits :: "nat \<Rightarrow> rat \<Rightarrow> int" where
  "fixed_digits f x = \<lfloor>\<bar>x\<bar> * 10 ^ f + 1/2\<rfloor>"

fun to_fixed :: "nat \<Rightarrow> number \<Rightarrow> number" where
  "to_fixed f (Fin x) =
     (if 10 ^ 21 \<le> \<bar>x\<bar> then Fin x
      else to_number ((if x < 0 then - 1 else 1) * of_int (fixed_digits f x) / 10 ^ f))"
| "to_fixed f x = x"

text \<open>The length of an array, or another count below \<open>2^53\<close>, as a Number.\<close>

definition num_of_nat :: "nat \<Rightarrow> number" where
  "num_of_nat n = Fin (of_nat n)"

subsection \<open>Strings\<close>

text \<open>
  A JavaScript string is a sequence of UTF-16 code units, here integers.
  \<open>ustr\<close> turns an ASCII literal into its code units.
\<close>

type_synonym js_string = "int list"

definition ustr :: "string \<Rightarrow> js_string" where
  "ustr s = map of_char s"

subsection \<open>Objects and other values\<close>

text \<open>
  The results handed from the Forge service to its callers are untyped object literals
  whose key sets differ from one path to the other; they are modelled as such: an object
  is the list of its properties, and reading a property that is not there gives
  \<open>undefined\<close>.
\<close>

datatype jsval =
    JUndefined
  | JNull
  | JBool bool
  | JNum number
  | JStr js_string
  | JArr "jsval list"
  | JObj "(string \<times> jsval) list"

definition get :: "jsval \<Rightarrow> string \<Rightarrow> jsval" where
  "get v key = (case v of
      JObj props \<Rightarrow> (case map_of props key of None \<Rightarrow> JUndefined | Some x \<Rightarrow> x)
    | _ \<Rightarrow> JUndefined)"

fun truthy :: "jsval \<Rightarrow> bool" where
  "truthy JUndefined = False"
| "truthy JNull = False"
| "truthy (JBool b) = b"
| "truthy (JNum n) = num_truthy n"
| "truthy (JStr s) = (s \<noteq> [])"
| "truthy (JArr xs) = True"
| "truthy (JObj ps) = True"

text \<open>A thrown \<open>Error\<close>, by its message.\<close>

datatype error = Error js_string

fun message :: "error \<Rightarrow> js_string" where
  "message (Error m) = m"

section \<open>Regular expressions of the scanner\<close>

text \<open>
  The fragment of ECMAScript regular expressions that the source uses: literals,
  alternatives, one character of a class, lazy and greedy repetition of a class, and
  negative lookahead. A matcher takes the rest of the input and a continuation and tries
  its choices in the priority order of the backtracking semantics.
\<close>

datatype cclass = CAny | CNot int | CSpace | CDigit

fun in_class :: "cclass \<Rightarrow> int \<Rightarrow> bool" where
  "in_class CAny c = True"
| "in_class (CNot d) c = (c \<noteq> d)"
| "in_class CSpace c =
     (c \<in> set [9, 10, 11, 12, 13, 32, 160, 5760, 8232, 8233, 8239, 8287, 12288, 65279]
      \<or> (8192 \<le> c \<and> c \<le> 8202))"
| "in_class CDigit c = (48 \<le> c \<and> c \<le> 57)"

text \<open>
  With the \<open>i\<close> flag two code units match when their canonical forms are equal. All
  pattern characters are ASCII, and a code unit from 128 on never canonicalises to an
  ASCII one, so folding the ASCII letters decides every comparison with a pattern character.
\<close>

definition canon :: "int \<Rightarrow> int" where
  "canon c = (if 97 \<le> c \<and> c \<le> 122 then c - 32 else c)"

definition unit_eq :: "bool \<Rightarrow> int \<Rightarrow> int \<Rightarrow> bool" where
  "unit_eq ci a b = (if ci then canon a = canon b else a = b)"

fun match_lit :: "bool \<Rightarrow> js_string \<Rightarrow> js_string \<Rightarrow> js_string option" where
  "match_lit ci [] s = Some s"
| "match_lit ci (p # ps) [] = None"
| "match_lit ci (p # ps) (c # cs) = (if unit_eq ci p c then match_lit ci ps cs else None)"

fun lazy_star :: "(int \<Rightarrow> bool) \<Rightarrow> js_string \<Rightarrow> (js_string \<Rightarrow> js_string option) \<Rightarrow> js_string option" where
  "lazy_star P [] k = k []"
| "lazy_star P (c # cs) k =
     (case k (c # cs) of Some r \<Rightarrow> Some r
      | None \<Rightarrow> if P c then lazy_star P cs k else None)"

fun greedy_star :: "(int \<Rightarrow> bool) \<Rightarrow> js_string \<Rightarrow> (js_string \<Rightarrow> js_string option) \<Rightarrow> js_string option" where
  "greedy_star P [] k = k []"
| "greedy_star P (c # cs) k =
     (if P c then (case greedy_star P cs k of Some r \<Rightarrow> Some r | None \<Rightarrow> k (c # cs))
      else k (c # cs))"

datatype regex =
    Lit js_string
  | Cls cclass
  | Seq regex regex
  | Alt regex regex
  | LazyStar cclass
  | GreedyStar cclass
  | NegLookahead regex

primrec rmatch :: "bool \<Rightarrow> regex \<Rightarrow> js_string \<Rightarrow> (js_string \<Rightarrow> js_string option) \<Rightarrow> js_string option" where
  "rmatch ci (Lit p) = (\<lambda>s k. case match_lit ci p s of None \<Rightarrow> None | Some r \<Rightarrow> k r)"
| "rmatch ci (Cls C) = (\<lambda>s k. case s of [] \<Rightarrow> None | c # cs \<Rightarrow> if in_class C c then k cs else None)"
| "rmatch ci (Seq a b) = (\<lambda>s k. rmatch ci a s (\<lambda>r. rmatch ci b r k))"
| "rmatch ci (Alt a b) = (\<lambda>s k. case rmatch ci a s k of Some r \<Rightarrow> Some r | None \<Rightarrow> rmatch ci b s k)"
| "rmatch ci (LazyStar C) = (\<lambda>s k. lazy_star (in_class C) s k)"
| "rmatch ci (GreedyStar C) = (\<lambda>s k. greedy_star (in_class C) s k)"
| "rmatch ci (NegLookahead a) = (\<lambda>s k. case rmatch ci a s Some of Some r \<Rightarrow> None | None \<Rightarrow> k s)"

text \<open>One attempt at a position: the rest of the input after the match, if there is one.\<close>

definition match_here :: "bool \<Rightarrow> regex \<Rightarrow> js_string \<Rightarrow> js_string option" where
  "match_here ci r s = rmatch ci r s Some"

text \<open>
  \<open>str.match(re)\<close> with the \<open>g\<close> flag: the matches from left to right, each search
  starting where the last match ended (one unit further after an empty match). The
  counter holds how many units are still covered by the last match. The empty list stands
  for the \<open>null\<close> that \<open>match\<close> returns when nothing matches.
\<close>

fun match_from :: "bool \<Rightarrow> regex \<Rightarrow> nat \<Rightarrow> js_string \<Rightarrow> js_string list" where
  "match_from ci r n [] =
     (if n = 0 then (case match_here ci r [] of Some rest \<Rightarrow> [[]] | None \<Rightarrow> []) else [])"
| "match_from ci r n (c # cs) =
     (if 0 < n then match_from ci r (n - 1) cs
      else case match_here ci r (c # cs) of
             None \<Rightarrow> match_from ci r 0 cs
           | Some rest \<Rightarrow>
               (let len = length (c # cs) - length rest
                in take len (c # cs) # match_from ci r (len - 1) cs))"

definition match_global :: "bool \<Rightarrow> regex \<Rightarrow> js_string \<Rightarrow> js_string list" where
  "match_global ci r s = match_from ci r 0 s"

text \<open>\<open>(?:a|b|c)\<close> over literal alternatives.\<close>

fun alts :: "string list \<Rightarrow> regex" where
  "alts [] = Lit []"
| "alts [a] = Lit (ustr a)"
| "alts (a # as) = Alt (Lit (ustr a)) (alts as)"

section \<open>ConcreteExecution: scanner, strategy generators, selection\<close>

subsection \<open>analyzeForVulnerabilities\<close>

datatype vuln_type =
  Reentrancy | IntegerOverflow | AccessControl | DelegateCall | UncheckedCall | PriceOracle | FlashLoan

datatype severity = SevLow | SevMedium | SevHigh | SevCritical

record vulnerability =
  vtype :: vuln_type
  vseverity :: severity
  vdescription :: string
  vmatches :: nat
  vconfidence :: number

record pattern_config =
  pattern :: regex
  pseverity :: severity
  pdescription :: string

text \<open>\<open>(?!\s*(?:require|assert))\<close>, shared by two patterns.\<close>

definition not_checked :: regex where
  "not_checked = NegLookahead (Seq (GreedyStar CSpace) (alts [''require'', ''assert'']))"

text \<open>The \<open>patterns\<close> object, as its entries in the order of declaration; every pattern has the flags \<open>gi\<close>.\<close>

definition patterns :: "(vuln_type \<times> pattern_config) list" where
  "patterns =
    [(Reentrancy,
        \<lparr>pattern = Seq (alts [''call'', ''transfer'', ''send''])
                    (Seq (LazyStar CAny) (Seq (alts [''before'', ''after''])
                      (Seq (LazyStar CAny) (alts [''state'', ''balance''])))),
         pseverity = SevCritical,
         pdescription = ''Potential reentrancy vulnerability detected''\<rparr>),
     (IntegerOverflow,
        \<lparr>pattern = Seq (alts [''++'', ''--'', ''+='', ''-='', ''*='', ''/='']) not_checked,
         pseverity = SevHigh,
         pdescription = ''Potential integer overflow/underflow vulnerability''\<rparr>),
     (AccessControl,
        \<lparr>pattern = Seq (alts [''onlyOwner'', ''onlyAdmin'', ''modifier''])
                    (Seq (LazyStar CAny) (alts [''public'', ''external''])),
         pseverity = SevHigh,
         pdescription = ''Access control bypass potential''\<rparr>),
     (DelegateCall,
        \<lparr>pattern = Lit (ustr ''delegatecall''),
         pseverity = SevCritical,
         pdescription = ''Dangerous delegatecall usage detected''\<rparr>),
     (UncheckedCall,
        \<lparr>pattern = Seq (Lit (ustr ''.call(''))
                    (Seq (GreedyStar (CNot 41)) (Seq (Lit (ustr '')'')) not_checked)),
         pseverity = SevMedium,
         pdescription = ''Unchecked external call detected''\<rparr>),
     (PriceOracle,
        \<lparr>pattern = Seq (alts [''price'', ''oracle'', ''twap''])
                    (Seq (LazyStar CAny) (alts [''manipulation'', ''attack''])),
         pseverity = SevHigh,
         pdescription = ''Price oracle manipulation vulnerability''\<rparr>),
     (FlashLoan,
        \<lparr>pattern = Seq (alts [''flashloan'', ''flash'', ''loan''])
                    (Seq (LazyStar CAny) (alts [''arbitrage'', ''exploit''])),
         pseverity = SevMedium,
         pdescription = ''Flash loan exploit pattern detected''\<rparr>)]"

subsection \<open>calculateConfidence\<close>

definition typeMultipliers :: "vuln_type \<Rightarrow> number" where
  "typeMultipliers t = (case t of
      Reentrancy \<Rightarrow> lit (15/10)
    | DelegateCall \<Rightarrow> lit (18/10)
    | AccessControl \<Rightarrow> lit (12/10)
    | IntegerOverflow \<Rightarrow> lit (11/10)
    | PriceOracle \<Rightarrow> lit (14/10)
    | UncheckedCall \<Rightarrow> lit 1
    | FlashLoan \<Rightarrow> lit (13/10))"

definition protectivePatterns :: "regex list" where
  "protectivePatterns =
     [Lit (ustr ''require(''), Lit (ustr ''assert(''), Lit (ustr ''revert(''),
      Lit (ustr ''nonReentrant''), Lit (ustr ''SafeMath''), Lit (ustr ''OpenZeppelin'')]"

text \<open>
  The \<open>reduce\<close> over the protective patterns. The counts are lengths of arrays, far below
  \<open>2^53\<close>, so their sums and small multiples are exact and are computed on naturals.
\<close>

definition protectionCount :: "js_string \<Rightarrow> nat" where
  "protectionCount sourceCode =
     foldl (\<lambda>count p. count + length (match_global True p sourceCode)) 0 protectivePatterns"

definition calculateConfidence :: "vuln_type \<Rightarrow> nat \<Rightarrow> js_string \<Rightarrow> number" where
  "calculateConfidence t matches sourceCode =
     (let baseConfidence = Fin 30;
          m = typeMultipliers t;
          baseConfidence = num_mul baseConfidence (if num_truthy m then m else lit 1);
          baseConfidence = num_add baseConfidence (num_of_nat (min (matches * 10) 30));
          baseConfidence = num_sub baseConfidence (num_of_nat (min (protectionCount sourceCode * 5) 20))
      in math_max (math_min baseConfidence (Fin 95)) (Fin 5))"

record analysis =
  vulnerabilities :: "vulnerability list"
  totalFound :: nat
  criticalCount :: nat
  highCount :: nat

text \<open>The body of the loop over the entries of \<open>patterns\<close>: a finding is pushed when \<open>match\<close> is not \<open>null\<close>.\<close>

definition scan_pattern :: "js_string \<Rightarrow> vuln_type \<times> pattern_config \<Rightarrow> vulnerability list" where
  "scan_pattern sourceCode e =
     (let ms = match_global True (pattern (snd e)) sourceCode
      in if ms = [] then []
         else [\<lparr>vtype = fst e, vseverity = pseverity (snd e), vdescription = pdescription (snd e),
                vmatches = length ms,
                vconfidence = calculateConfidence (fst e) (length ms) sourceCode\<rparr>])"

definition analyzeForVulnerabilities :: "js_string \<Rightarrow> analysis" where
  "analyzeForVulnerabilities sourceCode =
     (let vs = concat (map (scan_pattern sourceCode) patterns)
      in \<lparr>vulnerabilities = vs,
          totalFound = length vs,
          criticalCount = length (filter (\<lambda>v. vseverity v = SevCritical) vs),
          highCount = length (filter (\<lambda>v. vseverity v = SevHigh) vs)\<rparr>)"

subsection \<open>The strategy generators\<close>

record strategy =
  stype :: vuln_type
  sseverity :: severity
  sconfidence :: number
  sdescription :: string
  proofOfConcept :: string
  estimatedProfit :: string
  requirements :: "string list"
  steps :: "string list"

text \<open>
  The three Solidity templates are long constant texts; each is kept here by its
  contract name only. No property below reads them.
\<close>

definition reentrancyProofOfConcept :: string where
  "reentrancyProofOfConcept = ''contract ReentrancyExploit''"

definition delegateCallProofOfConcept :: string where
  "delegateCallProofOfConcept = ''contract DelegateCallExploit''"

definition priceOracleProofOfConcept :: string where
  "priceOracleProofOfConcept = ''contract PriceOracleExploit is IFlashLoanReceiver''"

definition generateReentrancyExploit :: "vulnerability \<Rightarrow> strategy" where
  "generateReentrancyExploit v =
     \<lparr>stype = Reentrancy, sseverity = SevCritical, sconfidence = vconfidence v,
      sdescription = ''Reentrancy exploit targeting withdraw functions'',
      proofOfConcept = reentrancyProofOfConcept,
      estimatedProfit = ''High'',
      requirements = [''Contract must have withdraw function'', ''Insufficient reentrancy protection''],
      steps = [''Deploy exploit contract'', ''Deposit funds to target contract'',
               ''Call withdraw function'', ''Exploit reentrancy in receive/fallback'',
               ''Drain contract funds'']\<rparr>"

definition generateDelegateCallExploit :: "vulnerability \<Rightarrow> strategy" where
  "generateDelegateCallExploit v =
     \<lparr>stype = DelegateCall, sseverity = SevCritical, sconfidence = vconfidence v,
      sdescription = ''Delegatecall exploit to overwrite storage and gain control'',
      proofOfConcept = delegateCallProofOfConcept,
      estimatedProfit = ''Very High'',
      requirements = [''Contract uses delegatecall with user input'', ''Insufficient input validation''],
      steps = [''Identify delegatecall usage'', ''Craft malicious payload'',
               ''Overwrite critical storage slots'', ''Gain administrative control'',
               ''Drain contract funds'']\<rparr>"

definition generateAccessControlExploit :: "vulnerability \<Rightarrow> strategy" where
  "generateAccessControlExploit v =
     \<lparr>stype = AccessControl, sseverity = SevHigh,
      sconfidence = num_mul (vconfidence v) (lit (8/10)),
      sdescription = ''Access control bypass attempt'',
      proofOfConcept = ''// Access control exploit would be contract-specific'',
      estimatedProfit = ''Medium'',
      requirements = [''Flawed access control implementation''],
      steps = [''Analyze access control patterns'', ''Find bypass methods'',
               ''Execute privileged functions'']\<rparr>"

definition generateOverflowExploit :: "vulnerability \<Rightarrow> strategy" where
  "generateOverflowExploit v =
     \<lparr>stype = IntegerOverflow, sseverity = SevHigh,
      sconfidence = num_mul (vconfidence v) (lit (7/10)),
      sdescription = ''Integer overflow/underflow exploit'',
      proofOfConcept = ''// Overflow exploit would target specific arithmetic operations'',
      estimatedProfit = ''Medium'',
      requirements = [''Arithmetic operations without SafeMath'', ''Solidity version < 0.8.0''],
      steps = [''Identify vulnerable arithmetic'', ''Craft overflow conditions'',
               ''Manipulate contract state'']\<rparr>"

definition generatePriceOracleExploit :: "vulnerability \<Rightarrow> strategy" where
  "generatePriceOracleExploit v =
     \<lparr>stype = PriceOracle, sseverity = SevHigh, sconfidence = vconfidence v,
      sdescription = ''Price oracle manipulation using flash loans'',
      proofOfConcept = priceOracleProofOfConcept,
      estimatedProfit = ''Very High'',
      requirements = [''Contract relies on manipulable price oracle'', ''Flash loan availability''],
      steps = [''Identify price oracle dependency'', ''Calculate manipulation cost'',
               ''Execute flash loan attack'', ''Manipulate price oracle'',
               ''Execute profitable transaction'', ''Restore price and repay loan'']\<rparr>"

definition generateUncheckedCallExploit :: "vulnerability \<Rightarrow> strategy" where
  "generateUncheckedCallExploit v =
     \<lparr>stype = UncheckedCall, sseverity = SevMedium,
      sconfidence = num_mul (vconfidence v) (lit (6/10)),
      sdescription = ''Unchecked external call exploitation'',
      proofOfConcept = ''// Exploit would target specific unchecked calls'',
      estimatedProfit = ''Low to Medium'',
      requirements = [''External calls without return value checks''],
      steps = [''Identify unchecked calls'', ''Cause call failures'', ''Exploit logic flaws'']\<rparr>"

definition generateFlashLoanExploit :: "vulnerability \<Rightarrow> strategy" where
  "generateFlashLoanExploit v =
     \<lparr>stype = FlashLoan, sseverity = SevMedium, sconfidence = vconfidence v,
      sdescription = ''Flash loan arbitrage/manipulation exploit'',
      proofOfConcept = ''// Flash loan exploit targeting specific arbitrage opportunities'',
      estimatedProfit = ''High'',
      requirements = [''Flash loan availability'', ''Arbitrage or manipulation opportunity''],
      steps = [''Identify arbitrage opportunity'', ''Calculate optimal loan amount'',
               ''Execute flash loan strategy'']\<rparr>"

text \<open>
  The dispatch table; every type a finding can have has an entry, so the \<open>null\<close> of an
  unknown type (\<open>None\<close> here) is never returned.
\<close>

definition generateExploitStrategy :: "vulnerability \<Rightarrow> strategy option" where
  "generateExploitStrategy v = Some (case vtype v of
      Reentrancy \<Rightarrow> generateReentrancyExploit v
    | DelegateCall \<Rightarrow> generateDelegateCallExploit v
    | AccessControl \<Rightarrow> generateAccessControlExploit v
    | IntegerOverflow \<Rightarrow> generateOverflowExploit v
    | PriceOracle \<Rightarrow> generatePriceOracleExploit v
    | UncheckedCall \<Rightarrow> generateUncheckedCallExploit v
    | FlashLoan \<Rightarrow> generateFlashLoanExploit v)"

text \<open>The loop that pushes every strategy that is not \<open>null\<close>.\<close>

definition exploitStrategies :: "vulnerability list \<Rightarrow> strategy list" where
  "exploitStrategies vs = concat (map (\<lambda>v. case generateExploitStrategy v of None \<Rightarrow> [] | Some s \<Rightarrow> [s]) vs)"

subsection \<open>Selection\<close>

text \<open>\<open>reduce\<close> without an initial value, on a list that the caller has found non-empty.\<close>

definition better :: "strategy \<Rightarrow> strategy \<Rightarrow> strategy" where
  "better best current = (if num_greater (sconfidence current) (sconfidence best) then current else best)"

fun bestStrategy :: "strategy list \<Rightarrow> strategy option" where
  "bestStrategy [] = None"
| "bestStrategy (s # ss) = Some (foldl better s ss)"

section \<open>ForgeService\<close>

text \<open>
  What the service gets from outside: whether \<open>forge\<close> was found, the draws of
  \<open>Math.random\<close> in the order of the calls, the outcome of each file-system call and
  of each \<open>forge\<close> command (\<open>None\<close>: it went through), and the \<open>toString\<close> of Numbers.
\<close>

record forge_env =
  forgeAvailable :: bool
  random1 :: number
  random2 :: number
  random3 :: number
  numberToString :: "number \<Rightarrow> js_string"
  mkdir :: "error option"
  generateTestFiles :: "error option"
  forgeInit :: "error option"
  forgeInstall :: "error option"
  forgeTest :: "error + js_string \<times> js_string"
  rmdir :: "error option"

subsection \<open>parseForgeOutput\<close>

fun str_includes :: "js_string \<Rightarrow> js_string \<Rightarrow> bool" where
  "str_includes [] p = (p = [])"
| "str_includes (c # cs) p = (match_lit False p (c # cs) \<noteq> None \<or> str_includes cs p)"

text \<open>\<open>str.match(re)\<close> without the \<open>g\<close> flag: the text of the leftmost match.\<close>

fun match_first :: "regex \<Rightarrow> js_string \<Rightarrow> js_string option" where
  "match_first r [] = (case match_here False r [] of None \<Rightarrow> None | Some rest \<Rightarrow> Some [])"
| "match_first r (c # cs) =
     (case match_here False r (c # cs) of
        None \<Rightarrow> match_first r cs
      | Some rest \<Rightarrow> Some (take (length (c # cs) - length rest) (c # cs)))"

text \<open>
  \<open>/gas:\s*(\d+)/\<close> and \<open>/Profit:\s*(\d+)/\<close>. The part before the group holds no digit,
  so the group is what is left of the match from its first digit on.
\<close>

definition label_digits :: "string \<Rightarrow> regex" where
  "label_digits l = Seq (Lit (ustr l)) (Seq (GreedyStar CSpace) (Seq (Cls CDigit) (GreedyStar CDigit)))"

definition group1 :: "js_string \<Rightarrow> js_string" where
  "group1 m = dropWhile (\<lambda>c. \<not> in_class CDigit c) m"

text \<open>\<open>parseInt\<close> of a run of decimal digits: the nearest Number.\<close>

definition parseInt :: "js_string \<Rightarrow> number" where
  "parseInt ds = to_number (of_int (foldl (\<lambda>n c. 10 * n + (c - 48)) 0 ds))"

fun split_on :: "int \<Rightarrow> js_string \<Rightarrow> js_string list" where
  "split_on d [] = [[]]"
| "split_on d (c # cs) =
     (if c = d then [] # split_on d cs
      else (case split_on d cs of [] \<Rightarrow> [[c]] | l # ls \<Rightarrow> (c # l) # ls))"

definition trim :: "js_string \<Rightarrow> js_string" where
  "trim s = rev (dropWhile (in_class CSpace) (rev (dropWhile (in_class CSpace) s)))"

definition parseForgeOutput :: "js_string \<Rightarrow> js_string \<Rightarrow> jsval" where
  "parseForgeOutput stdout stderr =
     (let success = (str_includes stdout (ustr ''[PASS]'') \<and> \<not> str_includes stdout (ustr ''[FAIL]''));
          gasMatch = match_first (label_digits ''gas:'') stdout;
          gasUsed = (case gasMatch of Some m \<Rightarrow> parseInt (group1 m) | None \<Rightarrow> Fin 0);
          profitMatch = match_first (label_digits ''Profit:'') stdout;
          profit = (case profitMatch of Some m \<Rightarrow> parseInt (group1 m) | None \<Rightarrow> Fin 0);
          trace = map trim (filter (\<lambda>line. str_includes line [9492, 9472] \<or> str_includes line [9500, 9472]
                                           \<or> str_includes line [9474])
                             (split_on 10 stdout))
      in JObj [(''success'', JBool success),
               (''gasUsed'', JNum gasUsed),
               (''profit'', JNum profit),
               (''extractedTokens'', JArr []),
               (''trace'', JArr (map JStr trace)),
               (''fullOutput'', JStr stdout),
               (''errors'', JStr stderr)])"

subsection \<open>simulateExploitTest\<close>

definition simulateExploitTest :: "forge_env \<Rightarrow> strategy \<Rightarrow> jsval" where
  "simulateExploitTest env strat =
     (let confidence = (if num_truthy (sconfidence strat) then sconfidence strat else Fin 50);
          success = num_greater confidence (num_add (Fin 60) (num_mul (random1 env) (Fin 20)));
          baseGas = Fin 100000;
          gasUsed = num_add baseGas (math_floor (num_mul (random2 env) (Fin 200000)));
          profit = (if success
                    then num_add (math_floor (num_mul (random3 env) (Fin 1000000))) (Fin 100000)
                    else Fin 0);
          extractedTokens = (if success
             then [JObj [(''address'', JStr (ustr ''0xA0b86a33E6441E1c4B37d8c5C7e48a16c1111111'')),
                         (''amount'', JStr (numberToString env (num_mul profit (lit (6/10))))),
                         (''symbol'', JStr (ustr ''USDC''))],
                   JObj [(''address'', JStr (ustr ''0xdAC17F958D2ee523a2206206994597C13D831ec7'')),
                         (''amount'', JStr (numberToString env (num_mul profit (lit (4/10))))),
                         (''symbol'', JStr (ustr ''USDT''))]]
             else [])
      in JObj [(''success'', JBool success),
               (''gasUsed'', JNum gasUsed),
               (''profit'', JNum profit),
               (''extractedTokens'', JArr extractedTokens),
               (''trace'', JArr (filter truthy
                  [JStr ([9500, 9472] @ ustr '' [0] ExploitTest::testExploit()''),
                   JStr ([9474] @ ustr ''  '' @ [9500, 9472]
                         @ ustr '' [21000] TARGET::deposit{value: 1000000000000000000}()''),
                   JStr (if success then [9474] @ ustr ''  '' @ [9474] @ ustr ''  '' @ [9492, 9472, 32, 8592] @ ustr '' ()''
                         else [9474] @ ustr ''  '' @ [9474] @ ustr ''  '' @ [9492, 9472, 32, 8592] @ ustr '' revert''),
                   JStr (if success then [9474] @ ustr ''  '' @ [9500, 9472]
                                          @ ustr '' [31000] TARGET::withdraw(1000000000000000000)''
                         else [9474] @ ustr ''  '' @ [9492, 9472, 32, 8592] @ ustr '' revert''),
                   JStr (if success then [9474] @ ustr ''  '' @ [9474] @ ustr ''  '' @ [9492, 9472, 32, 8592] @ ustr '' ()''
                         else []),
                   JStr (if success then [9474] @ ustr ''  '' @ [9492, 9472, 32, 8592] @ ustr '' ()'' else [])])),
               (''errorMessage'', if success then JNull else JStr (ustr ''Exploit failed during execution'')),
               (''simulationNote'', JStr (ustr ''This is a simulated result - Forge not available''))])"

subsection \<open>runForgeTest and testExploit\<close>

text \<open>The object that several \<open>catch\<close> blocks return.\<close>

definition failure_result :: "error \<Rightarrow> jsval" where
  "failure_result e =
     JObj [(''success'', JBool False),
           (''errorMessage'', JStr (message e)),
           (''gasUsed'', JNum (Fin 0)),
           (''profit'', JNum (Fin 0)),
           (''extractedTokens'', JArr []),
           (''trace'', JArr [])]"

text \<open>A failing \<open>forge install\<close> is only logged.\<close>

definition runForgeTest :: "forge_env \<Rightarrow> jsval" where
  "runForgeTest env =
     (case forgeInit env of
        Some e \<Rightarrow> failure_result e
      | None \<Rightarrow> (case forgeTest env of
                   Inl e \<Rightarrow> failure_result e
                 | Inr (stdout, stderr) \<Rightarrow> parseForgeOutput stdout stderr))"

definition rethrow :: "string \<Rightarrow> error \<Rightarrow> error" where
  "rethrow prefix e = Error (ustr prefix @ message e)"

definition testExploit :: "forge_env \<Rightarrow> strategy \<Rightarrow> error + jsval" where
  "testExploit env strat =
     (if \<not> forgeAvailable env then Inr (simulateExploitTest env strat)
      else case mkdir env of
             Some e \<Rightarrow> Inl (rethrow ''Forge test execution failed: '' e)
           | None \<Rightarrow> (case generateTestFiles env of
               Some e \<Rightarrow> Inl (rethrow ''Forge test execution failed: '' e)
             | None \<Rightarrow> (let result = runForgeTest env
                        in case rmdir env of
                             Some e \<Rightarrow> Inl (rethrow ''Forge test execution failed: '' e)
                           | None \<Rightarrow> Inr result)))"

section \<open>ConcreteExecution.execute\<close>

definition executeExploitStrategy :: "forge_env \<Rightarrow> strategy \<Rightarrow> jsval" where
  "executeExploitStrategy env strat =
     (case testExploit env strat of
        Inr testResult \<Rightarrow>
          JObj [(''success'', get testResult ''success''),
                (''gasUsed'', get testResult ''gasUsed''),
                (''profit'', get testResult ''profit''),
                (''extractedTokens'', get testResult ''extractedTokens''),
                (''trace'', get testResult ''trace''),
                (''errorMessage'', get testResult ''errorMessage'')]
      | Inl e \<Rightarrow> failure_result e)"

record execution_args =
  contractAddress :: js_string
  chainId :: int
  blockNumber :: "js_string option"
  sourceCode :: js_string

text \<open>What the schema checks of these fields: \<open>/^0x[a-fA-F0-9]{40}$/\<close> and a positive chain id.\<close>

definition is_hex :: "int \<Rightarrow> bool" where
  "is_hex c = ((48 \<le> c \<and> c \<le> 57) \<or> (97 \<le> c \<and> c \<le> 102) \<or> (65 \<le> c \<and> c \<le> 70))"

definition valid_address :: "js_string \<Rightarrow> bool" where
  "valid_address a = (length a = 42 \<and> take 2 a = ustr ''0x'' \<and> list_all is_hex (drop 2 a))"

record executed =
  exploitFound :: jsval
  exploitType :: vuln_type
  eseverity :: severity
  econfidence :: number
  edescription :: string
  eproofOfConcept :: string
  e_extractedTokens :: jsval
  e_gasUsed :: jsval
  executionTrace :: jsval
  profitEstimate :: jsval
  evulnerabilities :: "vulnerability list"
  allStrategies :: "strategy list"
  executionDetails :: jsval

text \<open>The three shapes of the object that \<open>execute\<close> returns.\<close>

datatype execution_output =
    NoVulnerabilities
  | NoStrategies "vulnerability list"
  | Executed executed

definition execute :: "forge_env \<Rightarrow> execution_args \<Rightarrow> error + execution_output" where
  "execute env args =
     (if \<not> (valid_address (contractAddress args) \<and> 0 < chainId args)
      then Inl (Error (ustr ''ZodError''))
      else let vulnerabilityAnalysis = analyzeForVulnerabilities (sourceCode args)
           in if length (vulnerabilities vulnerabilityAnalysis) = 0 then Inr NoVulnerabilities
              else let strategies = exploitStrategies (vulnerabilities vulnerabilityAnalysis)
                   in case bestStrategy strategies of
                        None \<Rightarrow> Inr (NoStrategies (vulnerabilities vulnerabilityAnalysis))
                      | Some best \<Rightarrow>
                          (let executionResult = executeExploitStrategy env best;
                               tokens = get executionResult ''extractedTokens''
                           in Inr (Executed
                                \<lparr>exploitFound = get executionResult ''success'',
                                 exploitType = stype best,
                                 eseverity = sseverity best,
                                 econfidence = sconfidence best,
                                 edescription = sdescription best,
                                 eproofOfConcept = proofOfConcept best,
                                 e_extractedTokens = (if truthy tokens then tokens else JArr []),
                                 e_gasUsed = get executionResult ''gasUsed'',
                                 executionTrace = get executionResult ''trace'',
                                 profitEstimate = get executionResult ''profit'',
                                 evulnerabilities = vulnerabilities vulnerabilityAnalysis,
                                 allStrategies = strategies,
                                 executionDetails = executionResult\<rparr>)))"

text \<open>The property \<open>exploitFound\<close> of the returned object; the two early returns set it to \<open>false\<close>.\<close>

fun exploitFound_of :: "execution_output \<Rightarrow> jsval" where
  "exploitFound_of NoVulnerabilities = JBool False"
| "exploitFound_of (NoStrategies vs) = JBool False"
| "exploitFound_of (Executed r) = exploitFound r"

section \<open>RevenueNormalizer\<close>

record extracted_token =
  t_address :: js_string
  t_amount :: js_string
  t_symbol :: "js_string option"
  t_decimals :: "number option"

record token_metadata =
  m_symbol :: js_string
  m_decimals :: number

record token_price =
  p_priceUSD :: number
  p_priceETH :: number
  p_liquidityUSD :: number
  p_priceImpact :: number
  p_sources :: "string list"
  p_confidence :: number

text \<open>
  What the normalizer gets from the price oracle service and from the \<open>ethers\<close> library,
  each call with its result or the error it throws. \<open>formatUnits\<close> returns a decimal
  string, given here by the rational it denotes; \<open>parseFloat\<close> of that string is the
  nearest Number. \<open>parseUnitsGwei\<close> is \<open>parseUnits(gasPrice, 'gwei')\<close>, in wei.
\<close>

record oracle_env =
  getNativeTokenPrice :: "error + number"
  getTokenMetadata :: "js_string \<Rightarrow> error + token_metadata"
  getTokenPrice :: "js_string \<Rightarrow> error + token_price"
  formatUnits :: "js_string \<Rightarrow> number \<Rightarrow> error + rat"
  parseUnitsGwei :: "js_string \<Rightarrow> error + int"

datatype liquidity_class = VeryLow | LowLiquidity | MediumLiquidity | HighLiquidity | UnknownLiquidity

text \<open>
  An entry of the output list. The entry of a token that was normalized and the entry
  of one that failed are object literals with different keys; a key that an entry lacks
  is \<open>None\<close>.
\<close>

record normalized_token =
  n_address :: js_string
  n_symbol :: "js_string option"
  n_decimals :: "number option"
  n_amount :: js_string
  n_amountDecimal :: "number option"
  n_priceUSD :: number
  n_priceETH :: number
  n_valueUSD :: number
  n_valueETH :: number
  n_liquidity :: liquidity_class
  n_liquidityUSD :: "number option"
  n_priceImpact :: "number option"
  n_sources :: "string list option"
  n_confidence :: "number option"
  n_error :: "js_string option"

definition assessLiquidity :: "number \<Rightarrow> liquidity_class" where
  "assessLiquidity liquidityUSD =
     (if num_greater liquidityUSD (Fin 1000000) then HighLiquidity
      else if num_greater liquidityUSD (Fin 100000) then MediumLiquidity
      else if num_greater liquidityUSD (Fin 10000) then LowLiquidity
      else VeryLow)"

text \<open>Truthiness of an optional string and of an optional Number.\<close>

definition str_truthy :: "js_string option \<Rightarrow> bool" where
  "str_truthy s = (case s of None \<Rightarrow> False | Some x \<Rightarrow> x \<noteq> [])"

definition optnum_truthy :: "number option \<Rightarrow> bool" where
  "optnum_truthy n = (case n of None \<Rightarrow> False | Some x \<Rightarrow> num_truthy x)"

definition normalizeToken :: "oracle_env \<Rightarrow> extracted_token \<Rightarrow> error + normalized_token" where
  "normalizeToken env token =
     (case (if \<not> str_truthy (t_symbol token) \<or> \<not> optnum_truthy (t_decimals token)
            then getTokenMetadata env (t_address token)
            else Inr \<lparr>m_symbol = the (t_symbol token), m_decimals = the (t_decimals token)\<rparr>) of
        Inl e \<Rightarrow> Inl e
      | Inr tokenMetadata \<Rightarrow>
         (let decimals = (if num_truthy (m_decimals tokenMetadata) then m_decimals tokenMetadata else Fin 18)
          in case formatUnits env (t_amount token) decimals of
               Inl e \<Rightarrow> Inl e
             | Inr amountDecimal \<Rightarrow>
                (case getTokenPrice env (t_address token) of
                   Inl e \<Rightarrow> Inl e
                 | Inr priceData \<Rightarrow>
                    (let valueUSD = num_mul (to_number amountDecimal) (p_priceUSD priceData);
                         valueETH = num_mul (to_number amountDecimal) (p_priceETH priceData);
                         liquidity = assessLiquidity (p_liquidityUSD priceData)
                     in Inr \<lparr>n_address = t_address token,
                             n_symbol = Some (m_symbol tokenMetadata),
                             n_decimals = Some decimals,
                             n_amount = t_amount token,
                             n_amountDecimal = Some (to_fixed 6 (to_number amountDecimal)),
                             n_priceUSD = to_fixed 6 (p_priceUSD priceData),
                             n_priceETH = to_fixed 10 (p_priceETH priceData),
                             n_valueUSD = to_fixed 2 valueUSD,
                             n_valueETH = to_fixed 6 valueETH,
                             n_liquidity = liquidity,
                             n_liquidityUSD = Some (p_liquidityUSD priceData),
                             n_priceImpact = Some (p_priceImpact priceData),
                             n_sources = Some (p_sources priceData),
                             n_confidence = Some (p_confidence priceData),
                             n_error = None\<rparr>))))"

text \<open>The entry that the \<open>catch\<close> inside the loop pushes for a token whose normalization threw.\<close>

definition error_entry :: "extracted_token \<Rightarrow> error \<Rightarrow> normalized_token" where
  "error_entry token e =
     \<lparr>n_address = t_address token,
      n_symbol = t_symbol token,
      n_decimals = t_decimals token,
      n_amount = t_amount token,
      n_amountDecimal = None,
      n_priceUSD = Fin 0,
      n_priceETH = Fin 0,
      n_valueUSD = Fin 0,
      n_valueETH = Fin 0,
      n_liquidity = UnknownLiquidity,
      n_liquidityUSD = None,
      n_priceImpact = None,
      n_sources = None,
      n_confidence = None,
      n_error = Some (message e)\<rparr>"

record gas_costs =
  g_gasUsed :: number
  g_gasPrice :: js_string
  costETH :: number
  costUSD :: number
  estimated :: bool

text \<open>\<open>BigInt(n)\<close> of a Number throws a RangeError unless the Number is an integer.\<close>

fun bigint_of :: "number \<Rightarrow> error + int" where
  "bigint_of (Fin a) = (if of_int \<lfloor>a\<rfloor> = a then Inr \<lfloor>a\<rfloor> else Inl (Error (ustr ''RangeError'')))"
| "bigint_of x = Inl (Error (ustr ''RangeError''))"

text \<open>
  \<open>ethers.formatEther\<close> of a bigint gives the decimal of the value over \<open>10^18\<close>; it
  throws when the value does not fit the 512 bits, sign included, of its fixed-point format.
\<close>

definition formatEther :: "int \<Rightarrow> error + rat" where
  "formatEther wei =
     (if - (2 ^ 511) \<le> wei \<and> wei < 2 ^ 511 then Inr (of_int wei / 10 ^ 18)
      else Inl (Error (ustr ''overflow'')))"

definition calculateGasCosts ::
  "oracle_env \<Rightarrow> number option \<Rightarrow> js_string option \<Rightarrow> number \<Rightarrow> error + gas_costs" where
  "calculateGasCosts env gasUsed gasPrice nativeTokenPrice =
     (if \<not> optnum_truthy gasUsed \<or> \<not> str_truthy gasPrice \<or> \<not> num_truthy nativeTokenPrice
      then Inr \<lparr>g_gasUsed = (if optnum_truthy gasUsed then the gasUsed else Fin 0),
                g_gasPrice = (if str_truthy gasPrice then the gasPrice else ustr ''0''),
                costETH = Fin 0, costUSD = Fin 0, estimated = True\<rparr>
      else case parseUnitsGwei env (the gasPrice) of
             Inl e \<Rightarrow> Inl e
           | Inr gasPriceWei \<Rightarrow>
              (case bigint_of (the gasUsed) of
                 Inl e \<Rightarrow> Inl e
               | Inr g \<Rightarrow>
                  (let gasCostWei = g * gasPriceWei
                   in case formatEther gasCostWei of
                        Inl e \<Rightarrow> Inl e
                      | Inr ether \<Rightarrow>
                         (let gasCostETH = to_number ether;
                              gasCostUSD = num_mul gasCostETH nativeTokenPrice
                          in Inr \<lparr>g_gasUsed = the gasUsed, g_gasPrice = the gasPrice,
                                  costETH = to_fixed 6 gasCostETH,
                                  costUSD = to_fixed 2 gasCostUSD,
                                  estimated = False\<rparr>))))"

datatype risk_level = RiskLow | RiskMedium | RiskHigh | RiskVeryHigh

definition riskScore :: "normalized_token list \<Rightarrow> number \<Rightarrow> nat" where
  "riskScore tokens netProfitUSD =
     (let lowLiquidityTokens = length (filter (\<lambda>t. n_liquidity t = VeryLow \<or> n_liquidity t = LowLiquidity) tokens);
          highImpactTokens = length (filter (\<lambda>t. optnum_truthy (n_priceImpact t)
                                \<and> num_greater (the (n_priceImpact t)) (lit (5/100))) tokens);
          unknownTokens = length (filter (\<lambda>t. str_truthy (n_error t) \<or> \<not> str_truthy (n_symbol t)) tokens)
      in lowLiquidityTokens * 2 + highImpactTokens * 3 + unknownTokens * 4
         + (if num_less netProfitUSD (Fin 1000) then 2 else 0)
         + (if num_less netProfitUSD (Fin 100) then 3 else 0))"

definition assessRiskLevel :: "normalized_token list \<Rightarrow> number \<Rightarrow> risk_level" where
  "assessRiskLevel tokens netProfitUSD =
     (let score = riskScore tokens netProfitUSD
      in if 8 \<le> score then RiskVeryHigh
         else if 5 \<le> score then RiskHigh
         else if 2 \<le> score then RiskMedium
         else RiskLow)"

record normalizer_args =
  a_chainId :: int
  a_extractedTokens :: "extracted_token list"
  a_blockNumber :: "js_string option"
  a_gasUsed :: "number option"
  a_gasPrice :: "js_string option"

record summary =
  totalTokens :: nat
  successfulNormalizations :: nat
  highLiquidityTokens :: nat
  riskLevel :: risk_level

record revenue =
  r_extractedTokens :: "normalized_token list"
  totalValueUSD :: number
  totalValueETH :: number
  r_gasCosts :: gas_costs
  netProfitUSD :: number
  netProfitETH :: number
  isProfitable :: bool
  r_summary :: summary

text \<open>
  The loop over the tokens with its three accumulators: the list, \<open>totalValueUSD\<close> and
  \<open>totalValueETH\<close>. A token whose normalization throws adds its error entry and leaves the totals.
\<close>

fun normalize_all ::
  "oracle_env \<Rightarrow> extracted_token list \<Rightarrow> normalized_token list \<times> number \<times> number
     \<Rightarrow> normalized_token list \<times> number \<times> number" where
  "normalize_all env [] acc = acc"
| "normalize_all env (token # rest) (normalizedTokens, totUSD, totETH) =
     (case normalizeToken env token of
        Inr normalizedToken \<Rightarrow>
          normalize_all env rest (normalizedTokens @ [normalizedToken],
                                  num_add totUSD (n_valueUSD normalizedToken),
                                  num_add totETH (n_valueETH normalizedToken))
      | Inl e \<Rightarrow>
          normalize_all env rest (normalizedTokens @ [error_entry token e], totUSD, totETH))"

text \<open>
  The schema rejects a chain id that is not positive and a Number that is NaN before the
  \<open>try\<close>; an error thrown inside the \<open>try\<close> is thrown again with a prefix. The
  properties \<open>chainId\<close>, \<open>blockNumber\<close>, \<open>timestamp\<close>, \<open>nativeTokenPrice\<close>,
  \<open>profitabilityRatio\<close> and \<open>marketData\<close> of the result are left out.
\<close>

definition normalizer_valid :: "normalizer_args \<Rightarrow> bool" where
  "normalizer_valid args =
     (0 < a_chainId args \<and> a_gasUsed args \<noteq> Some NaN
      \<and> list_all (\<lambda>t. t_decimals t \<noteq> Some NaN) (a_extractedTokens args))"

definition normalizer_execute :: "oracle_env \<Rightarrow> normalizer_args \<Rightarrow> error + revenue" where
  "normalizer_execute env args =
     (if \<not> normalizer_valid args then Inl (Error (ustr ''ZodError''))
      else case getNativeTokenPrice env of
        Inl e \<Rightarrow> Inl (rethrow ''Revenue normalization failed: '' e)
      | Inr nativeTokenPrice \<Rightarrow>
         (case calculateGasCosts env (a_gasUsed args) (a_gasPrice args) nativeTokenPrice of
            Inl e \<Rightarrow> Inl (rethrow ''Revenue normalization failed: '' e)
          | Inr gasCosts \<Rightarrow>
             (case normalize_all env (a_extractedTokens args) ([], Fin 0, Fin 0) of
                (normalizedTokens, totalUSD, totalETH) \<Rightarrow>
                  (let netUSD = num_sub totalUSD (costUSD gasCosts);
                       netETH = num_sub totalETH (costETH gasCosts)
                   in Inr \<lparr>r_extractedTokens = normalizedTokens,
                           totalValueUSD = to_fixed 2 totalUSD,
                           totalValueETH = to_fixed 6 totalETH,
                           r_gasCosts = gasCosts,
                           netProfitUSD = to_fixed 2 netUSD,
                           netProfitETH = to_fixed 6 netETH,
                           isProfitable = num_greater netUSD (Fin 0),
                           r_summary =
                             \<lparr>totalTokens = length (a_extractedTokens args),
                              successfulNormalizations =
                                length (filter (\<lambda>t. \<not> str_truthy (n_error t)) normalizedTokens),
                              highLiquidityTokens =
                                length (filter (\<lambda>t. n_liquidity t = HighLiquidity) normalizedTokens),
                              riskLevel = assessRiskLevel normalizedTokens netUSD\<rparr>\<rparr>))))"

section \<open>The orchestrator: McpServer.startAnalysis\<close>

datatype session_status = Pending | Running | Completed | Failed

record exploit_discovery =
  d_sessionId :: js_string
  d_contractAddress :: js_string
  d_chainId :: int
  d_exploitType :: vuln_type
  d_severity :: severity
  d_confidence :: number
  d_valueAtRisk :: number
  d_proofOfConcept :: string
  d_description :: string
  d_validated :: bool

text \<open>The two tables of the storage that the orchestrator writes.\<close>

record store =
  sessions :: "js_string \<rightharpoonup> session_status"
  discoveries :: "exploit_discovery list"

record analysis_config =
  c_contractAddress :: js_string
  c_chainId :: int
  c_blockNumber :: "js_string option"

text \<open>
  What the orchestrator gets from outside: the results of the four tools that run before
  the execution tool (the fetched source, the error of the constructor and state tools
  if they throw, the sanitizer as a function of the fetched source), the environments of
  the two tools modelled above, and the error of each storage call that fails.
\<close>

record pipeline_env =
  sourceCodeFetcher :: "error + js_string"
  constructorParameters :: "error option"
  stateReader :: "error option"
  codeSanitizer :: "js_string \<Rightarrow> error + js_string"
  forge :: forge_env
  priceOracle :: oracle_env
  createExploitDiscovery_error :: "error option"
  updateMcpSession_error :: "session_status \<Rightarrow> error option"

text \<open>\<open>updateMcpSession\<close> updates the row of the session, if there is one.\<close>

definition updateMcpSession ::
  "pipeline_env \<Rightarrow> js_string \<Rightarrow> session_status \<Rightarrow> store \<Rightarrow> error option \<times> store" where
  "updateMcpSession env sessionId status st =
     (case updateMcpSession_error env status of
        Some e \<Rightarrow> (Some e, st)
      | None \<Rightarrow> (None, if sessions st sessionId \<noteq> None
                         then st\<lparr>sessions := (sessions st)(sessionId \<mapsto> status)\<rparr> else st))"

text \<open>The schema of the normalizer applied to the \<open>extractedTokens\<close> it is handed.\<close>

definition parse_token :: "jsval \<Rightarrow> extracted_token option" where
  "parse_token v =
     (case (get v ''address'', get v ''amount'') of
        (JStr a, JStr n) \<Rightarrow>
          (case (case get v ''symbol'' of JUndefined \<Rightarrow> Some None | JStr x \<Rightarrow> Some (Some x) | _ \<Rightarrow> None) of
             None \<Rightarrow> None
           | Some symb \<Rightarrow>
              (case (case get v ''decimals'' of JUndefined \<Rightarrow> Some None
                       | JNum x \<Rightarrow> (if x = NaN then None else Some (Some x)) | _ \<Rightarrow> None) of
                 None \<Rightarrow> None
               | Some decs \<Rightarrow> Some \<lparr>t_address = a, t_amount = n, t_symbol = symb, t_decimals = decs\<rparr>))
      | _ \<Rightarrow> None)"

definition parse_tokens :: "jsval \<Rightarrow> error + extracted_token list" where
  "parse_tokens v =
     (case v of
        JArr xs \<Rightarrow> (if list_all (\<lambda>x. parse_token x \<noteq> None) xs then Inr (map (\<lambda>x. the (parse_token x)) xs)
                    else Inl (Error (ustr ''ZodError'')))
      | _ \<Rightarrow> Inl (Error (ustr ''ZodError'')))"

text \<open>Steps 1 to 5 of the pipeline: the four preparing tools, then the execution tool.\<close>

definition execution_stage :: "pipeline_env \<Rightarrow> analysis_config \<Rightarrow> error + execution_output" where
  "execution_stage env config =
     (case sourceCodeFetcher env of
        Inl e \<Rightarrow> Inl e
      | Inr fetched \<Rightarrow>
         (case constructorParameters env of
            Some e \<Rightarrow> Inl e
          | None \<Rightarrow>
             (case stateReader env of
                Some e \<Rightarrow> Inl e
              | None \<Rightarrow>
                 (case codeSanitizer env fetched of
                    Inl e \<Rightarrow> Inl e
                  | Inr sanitizedCode \<Rightarrow>
                      execute (forge env)
                        \<lparr>contractAddress = c_contractAddress config, chainId = c_chainId config,
                         blockNumber = c_blockNumber config, sourceCode = sanitizedCode\<rparr>))))"

text \<open>
  Step 6. Of the three shapes of the execution tool's result only the last has
  \<open>extractedTokens\<close>; with the other two the normalizer's schema would reject the
  missing list.
\<close>

definition executeAnalysisPipeline ::
  "pipeline_env \<Rightarrow> js_string \<Rightarrow> analysis_config \<Rightarrow> store \<Rightarrow> error option \<times> store" where
  "executeAnalysisPipeline env sessionId config st =
     (case execution_stage env config of
        Inl e \<Rightarrow> (Some e, st)
      | Inr exploitResult \<Rightarrow>
         (if truthy (exploitFound_of exploitResult)
          then (case exploitResult of
                  Executed r \<Rightarrow>
                    (case parse_tokens (e_extractedTokens r) of
                       Inl e \<Rightarrow> (Some e, st)
                     | Inr tokens \<Rightarrow>
                        (case normalizer_execute (priceOracle env)
                                \<lparr>a_chainId = c_chainId config, a_extractedTokens = tokens,
                                 a_blockNumber = c_blockNumber config,
                                 a_gasUsed = None, a_gasPrice = None\<rparr> of
                           Inl e \<Rightarrow> (Some e, st)
                         | Inr revenue \<Rightarrow>
                            (case createExploitDiscovery_error env of
                               Some e \<Rightarrow> (Some e, st)
                             | None \<Rightarrow>
                                (None, st\<lparr>discoveries := discoveries st @
                                   [\<lparr>d_sessionId = sessionId,
                                     d_contractAddress = c_contractAddress config,
                                     d_chainId = c_chainId config,
                                     d_exploitType = exploitType r,
                                     d_severity = eseverity r,
                                     d_confidence = econfidence r,
                                     d_valueAtRisk = totalValueUSD revenue,
                                     d_proofOfConcept = eproofOfConcept r,
                                     d_description = edescription r,
                                     d_validated = True\<rparr>]\<rparr>))))
                | _ \<Rightarrow> (Some (Error (ustr ''ZodError'')), st))
          else (None, st)))"

text \<open>The \<open>catch\<close> of \<open>startAnalysis\<close>: mark the session failed and throw the error again.\<close>

definition on_failure :: "pipeline_env \<Rightarrow> js_string \<Rightarrow> error \<Rightarrow> store \<Rightarrow> error option \<times> store" where
  "on_failure env sessionId e st =
     (case updateMcpSession env sessionId Failed st of
        (Some e', st') \<Rightarrow> (Some e', st')
      | (None, st') \<Rightarrow> (Some e, st'))"

text \<open>The result is the error that \<open>startAnalysis\<close> throws, if it throws, and the storage it leaves.\<close>

definition startAnalysis ::
  "pipeline_env \<Rightarrow> js_string \<Rightarrow> analysis_config \<Rightarrow> store \<Rightarrow> error option \<times> store" where
  "startAnalysis env sessionId config st =
     (case updateMcpSession env sessionId Running st of
        (Some e, st1) \<Rightarrow> on_failure env sessionId e st1
      | (None, st1) \<Rightarrow>
         (case executeAnalysisPipeline env sessionId config st1 of
            (Some e, st2) \<Rightarrow> on_failure env sessionId e st2
          | (None, st2) \<Rightarrow>
             (case updateMcpSession env sessionId Completed st2 of
                (Some e, st3) \<Rightarrow> on_failure env sessionId e st3
              | (None, st3) \<Rightarrow> (None, st3))))"

section \<open>Sample inputs\<close>

text \<open>Decimal digits of an integer from 0 on, and a \<open>toString\<close> that is right on the integers from 0 below \<open>10^21\<close>.\<close>

function int_digits :: "int \<Rightarrow> js_string" where
  "int_digits n = (if n < 10 then [48 + n] else int_digits (n div 10) @ [48 + n mod 10])"
  by pat_completeness auto
termination
  by (relation "measure nat") auto

declare int_digits.simps [simp del]

fun integer_toString :: "number \<Rightarrow> js_string" where
  "integer_toString (Fin a) = (if 0 \<le> a \<and> of_int \<lfloor>a\<rfloor> = a then int_digits \<lfloor>a\<rfloor> else ustr ''NaN'')"
| "integer_toString x = ustr ''NaN''"

text \<open>A strategy as the delegatecall generator returns it for a finding of confidence 64.\<close>

definition delegate_strategy :: strategy where
  "delegate_strategy = generateDelegateCallExploit
     \<lparr>vtype = DelegateCall, vseverity = SevCritical,
      vdescription = ''Dangerous delegatecall usage detected'', vmatches = 1, vconfidence = Fin 64\<rparr>"



text \<open>No \<open>forge\<close> on the machine; every draw of \<open>Math.random\<close> is 0.\<close>

definition simulator_env :: forge_env where
  "simulator_env =
     \<lparr>forgeAvailable = False, random1 = Fin 0, random2 = Fin 0, random3 = Fin 0,
      numberToString = integer_toString,
      mkdir = None, generateTestFiles = None, forgeInit = None, forgeInstall = None,
      forgeTest = Inr ([], []), rmdir = None\<rparr>"

text \<open>\<open>forge\<close> is there and the test passes.\<close>

definition sandbox_env :: forge_env where
  "sandbox_env =
     \<lparr>forgeAvailable = True, random1 = Fin 0, random2 = Fin 0, random3 = Fin 0,
      numberToString = integer_toString,
      mkdir = None, generateTestFiles = None, forgeInit = None, forgeInstall = None,
      forgeTest = Inr (ustr ''[PASS] testExploit() (gas: 52000)'', []), rmdir = None\<rparr>"

text \<open>
  An oracle service and an \<open>ethers\<close> that answer as follows. The native token costs 3000
  USD. Every token costs 1 USD in a deep market. The metadata lookup throws for the
  address \<open>0xBAD\<close>, returns an empty symbol for \<open>0xE\<close>, and returns \<open>TKN\<close> with 18
  decimals otherwise. \<open>formatUnits\<close> and \<open>parseUnits\<close> read a string of decimal digits
  and throw on any other string.
\<close>

definition decimal_value :: "js_string \<Rightarrow> int option" where
  "decimal_value s =
     (if s \<noteq> [] \<and> list_all (in_class CDigit) s
      then Some (foldl (\<lambda>n c. 10 * n + (c - 48)) 0 s) else None)"

definition sample_formatUnits :: "js_string \<Rightarrow> number \<Rightarrow> error + rat" where
  "sample_formatUnits s d =
     (case decimal_value s of
        None \<Rightarrow> Inl (Error (ustr ''invalid BigNumberish string''))
      | Some v \<Rightarrow>
         (case d of
            Fin k \<Rightarrow> (if 0 \<le> k \<and> of_int \<lfloor>k\<rfloor> = k then Inr (of_int v / 10 ^ nat \<lfloor>k\<rfloor>)
                       else Inl (Error (ustr ''invalid unit'')))
          | _ \<Rightarrow> Inl (Error (ustr ''invalid unit''))))"

definition sample_oracle :: oracle_env where
  "sample_oracle =
     \<lparr>getNativeTokenPrice = Inr (Fin 3000),
      getTokenMetadata = (\<lambda>a. if a = ustr ''0xBAD'' then Inl (Error (ustr ''metadata lookup failed''))
                               else if a = ustr ''0xE'' then Inr \<lparr>m_symbol = [], m_decimals = Fin 18\<rparr>
                               else Inr \<lparr>m_symbol = ustr ''TKN'', m_decimals = Fin 18\<rparr>),
      getTokenPrice = (\<lambda>a. Inr \<lparr>p_priceUSD = Fin 1, p_priceETH = to_number (1 / 3000),
                                 p_liquidityUSD = Fin 2000000, p_priceImpact = lit (1 / 100),
                                 p_sources = [''Chainlink'', ''DEX''], p_confidence = Fin 100\<rparr>),
      formatUnits = sample_formatUnits,
      parseUnitsGwei = (\<lambda>s. case decimal_value s of
                                None \<Rightarrow> Inl (Error (ustr ''invalid FixedNumber string value''))
                              | Some v \<Rightarrow> Inr (v * 10 ^ 9))\<rparr>"

text \<open>A token given with its symbol and decimals.\<close>

definition token :: "string \<Rightarrow> string \<Rightarrow> nat \<Rightarrow> extracted_token" where
  "token a n d = \<lparr>t_address = ustr a, t_amount = ustr n, t_symbol = Some (ustr ''TKN''),
                  t_decimals = Some (Fin (of_nat d))\<rparr>"

text \<open>A token given by address and amount only, as the simulator lists them.\<close>

definition bare_token :: "string \<Rightarrow> string \<Rightarrow> extracted_token" where
  "bare_token a n = \<lparr>t_address = ustr a, t_amount = ustr n, t_symbol = None, t_decimals = None\<rparr>"

definition normalizer_input :: "extracted_token list \<Rightarrow> normalizer_args" where
  "normalizer_input ts =
     \<lparr>a_chainId = 1, a_extractedTokens = ts, a_blockNumber = None, a_gasUsed = None, a_gasPrice = None\<rparr>"

text \<open>
  What the sample oracle makes of a token: the entry with the given address, amount,
  symbol, decimal amount and values, and with the price and market of every sample token.
\<close>

definition sample_entry :: "string \<Rightarrow> string \<Rightarrow> js_string \<Rightarrow> rat \<Rightarrow> rat \<Rightarrow> rat \<Rightarrow> normalized_token" where
  "sample_entry a n symb amount usd eth =
     \<lparr>n_address = ustr a, n_symbol = Some symb, n_decimals = Some (Fin 18), n_amount = ustr n,
      n_amountDecimal = Some (Fin amount), n_priceUSD = Fin 1,
      n_priceETH = Fin (768614259543131 / 2305843009213693952),
      n_valueUSD = Fin usd, n_valueETH = Fin eth,
      n_liquidity = HighLiquidity, n_liquidityUSD = Some (Fin 2000000),
      n_priceImpact = Some (Fin (5764607523034235 / 576460752303423488)),
      n_sources = Some [''Chainlink'', ''DEX''], n_confidence = Some (Fin 100), n_error = None\<rparr>"

text \<open>One and a half tokens at \<open>0xA\<close>, then a token whose metadata lookup throws.\<close>

definition two_tokens :: normalizer_args where
  "two_tokens = normalizer_input [token ''0xA'' ''1500000000000000000'' 18, bare_token ''0xBAD'' ''7'']"


text \<open>6000 tokens of the contract at \<open>0xE\<close>, whose symbol is the empty string.\<close>

definition unnamed_input :: normalizer_args where
  "unnamed_input = normalizer_input [bare_token ''0xE'' ''6000000000000000000000'']"

text \<open>A tenth and a fifth of a token, and 100000 gas at 1 gwei: 0.30 USD of gas.\<close>

definition dust_input :: normalizer_args where
  "dust_input =
     \<lparr>a_chainId = 1,
      a_extractedTokens = [token ''0xA'' ''100000000000000000'' 18, token ''0xB'' ''200000000000000000'' 18],
      a_blockNumber = None, a_gasUsed = Some (Fin 100000), a_gasPrice = Some (ustr ''1'')\<rparr>"

text \<open>100000000000.01 tokens of two decimals, and the same gas.\<close>

definition large_input :: normalizer_args where
  "large_input =
     \<lparr>a_chainId = 1,
      a_extractedTokens = [token ''0xA'' ''10000000000001'' 2],
      a_blockNumber = None, a_gasUsed = Some (Fin 100000), a_gasPrice = Some (ustr ''1'')\<rparr>"

text \<open>250000.55 tokens of two decimals, a token whose metadata lookup throws, and the same gas.\<close>

definition modest_input :: normalizer_args where
  "modest_input =
     \<lparr>a_chainId = 1,
      a_extractedTokens = [token ''0xA'' ''25000055'' 2, bare_token ''0xBAD'' ''7''],
      a_blockNumber = None, a_gasUsed = Some (Fin 100000), a_gasPrice = Some (ustr ''1'')\<rparr>"

text \<open>Two source texts: a delegatecall alone, and one after a compound assignment.\<close>

definition delegate_source :: js_string where
  "delegate_source = ustr ''target.delegatecall(data);''"

definition mixed_source :: js_string where
  "mixed_source = ustr ''count += 1; target.delegatecall(data);''"

text \<open>
  A session over the first of these texts: the four preparing tools answer, the sanitizer
  returns the text unchanged, there is no \<open>forge\<close>, and every storage call goes through.
\<close>

definition sample_pipeline :: pipeline_env where
  "sample_pipeline =
     \<lparr>sourceCodeFetcher = Inr delegate_source, constructorParameters = None, stateReader = None,
      codeSanitizer = (\<lambda>s. Inr s), forge = simulator_env, priceOracle = sample_oracle,
      createExploitDiscovery_error = None, updateMcpSession_error = (\<lambda>s. None)\<rparr>"

definition sample_config :: analysis_config where
  "sample_config =
     \<lparr>c_contractAddress = ustr ''0x1111111111111111111111111111111111111111'',
      c_chainId = 1, c_blockNumber = None\<rparr>"

definition sample_store :: store where
  "sample_store = \<lparr>sessions = [ustr ''s1'' \<mapsto> Pending], discoveries = []\<rparr>"

section \<open>Definitions used in the statements and proofs\<close>

text \<open>The rounded product of 30 and the multiplier of each type.\<close>

definition base_points :: "vuln_type \<Rightarrow> int" where
  "base_points t = (case t of
      Reentrancy \<Rightarrow> 45 | IntegerOverflow \<Rightarrow> 33 | AccessControl \<Rightarrow> 36 | DelegateCall \<Rightarrow> 54
    | UncheckedCall \<Rightarrow> 30 | PriceOracle \<Rightarrow> 42 | FlashLoan \<Rightarrow> 39)"


text \<open>The finding of the specification's scenario A.\<close>

definition delegate_finding :: vulnerability where
  "delegate_finding = \<lparr>vtype = DelegateCall, vseverity = SevCritical,
      vdescription = ''Dangerous delegatecall usage detected'', vmatches = 1, vconfidence = Fin 64\<rparr>"

text \<open>The execution stage of a session ran and its execution result has \<open>success == true\<close>.\<close>

definition exploit_succeeded :: "pipeline_env \<Rightarrow> analysis_config \<Rightarrow> bool" where
  "exploit_succeeded env config =
     (\<exists>r. execution_stage env config = Inr (Executed r)
          \<and> get (executionDetails r) ''success'' = JBool True)"

text \<open>
  The composite risk score and the risk level in the words of the specification:
  2 for each token of low or very-low liquidity, 3 for each token with a price impact
  above 0.05, 4 for each token with an error present, 2 if the net profit is below 1000
  and 3 if it is below 100; very-high from 8, high from 5, medium from 2, low otherwise.
\<close>

definition spec_riskScore :: "normalized_token list \<Rightarrow> number \<Rightarrow> nat" where
  "spec_riskScore tokens net =
     2 * length (filter (\<lambda>t. n_liquidity t = LowLiquidity \<or> n_liquidity t = VeryLow) tokens)
     + 3 * length (filter (\<lambda>t. case n_priceImpact t of None \<Rightarrow> False
                                  | Some x \<Rightarrow> num_greater x (lit (5/100))) tokens)
     + 4 * length (filter (\<lambda>t. n_error t \<noteq> None) tokens)
     + (if num_less net (Fin 1000) then 2 else 0)
     + (if num_less net (Fin 100) then 3 else 0)"

definition spec_riskLevel :: "nat \<Rightarrow> risk_level" where
  "spec_riskLevel score =
     (if 8 \<le> score then RiskVeryHigh else if 5 \<le> score then RiskHigh
      else if 2 \<le> score then RiskMedium else RiskLow)"

text \<open>
  A running total after at most \<open>j\<close> additions of values of whole cents, each of at most
  a million: it is finite, within \<open>j / 2^21\<close> of a whole number of cents, and that number is
  at most \<open>j\<close> times a million and one.
\<close>

definition near_cents :: "nat \<Rightarrow> number \<Rightarrow> bool" where
  "near_cents j u =
     (\<exists>s K. u = Fin s \<and> \<bar>s - of_int K / 100\<bar> \<le> of_nat j / 2 ^ 21
            \<and> \<bar>of_int K / 100 :: rat\<bar> \<le> of_nat j * (10 ^ 6 + 1))"

section \<open>Rounding\<close>

lemma two_powi_eq: "two_powi k = 2 powi k"
  by (simp add: two_powi_def power_int_def field_simps)


lemma powi_of_nat_bitlen:
  assumes "0 < p"
  shows "(2::rat) powi (bitlen p - 1) \<le> of_int p" and "of_int p < (2::rat) powi (bitlen p)"
proof -
  from assms have b1: "1 \<le> bitlen p"
    by (auto simp: bitlen_alt_def)
  from bitlen_bounds [OF assms]
  have lo: "2 ^ nat (bitlen p - 1) \<le> p" and hi: "p < 2 ^ nat (bitlen p)"
    by auto
  have "(2::rat) powi (bitlen p - 1) = 2 ^ nat (bitlen p - 1)"
    using b1 by (simp add: power_int_def)
  also have "\<dots> = of_int (2 ^ nat (bitlen p - 1))"
    by simp
  also have "\<dots> \<le> of_int p"
    using lo by (simp only: of_int_le_iff)
  finally show "(2::rat) powi (bitlen p - 1) \<le> of_int p" .
  have "of_int p < (of_int (2 ^ nat (bitlen p)) :: rat)"
    using hi by (simp only: of_int_less_iff)
  also have "\<dots> = 2 powi (bitlen p)"
    using b1 by (simp add: power_int_def)
  finally show "of_int p < (2::rat) powi (bitlen p)" .
qed

lemma ilog2_bounds:
  assumes "x \<noteq> 0"
  shows "2 powi (ilog2 x) \<le> \<bar>x\<bar>" and "\<bar>x\<bar> < 2 powi (ilog2 x + 1)"
proof -
  obtain p q where pq: "quotient_of \<bar>x\<bar> = (p, q)"
    by (cases "quotient_of \<bar>x\<bar>")
  then have q: "0 < q" and x: "\<bar>x\<bar> = of_int p / of_int q"
    by (auto simp: quotient_of_denom_pos quotient_of_div)
  from assms have "0 < \<bar>x\<bar>" by simp
  with x q have p: "0 < p"
    by (simp add: zero_less_divide_iff)
  let ?e0 = "bitlen p - bitlen q"
  note P = powi_of_nat_bitlen [OF p] and Q = powi_of_nat_bitlen [OF q]
  have qpos: "(0::rat) < of_int q" using q by simp
  have pw: "(0::rat) < 2 powi k" for k by simp
  have ppos: "(0::rat) < of_int p" using p by simp
  have up: "\<bar>x\<bar> < 2 powi (?e0 + 1)"
  proof -
    have "of_int p * (2::rat) powi (bitlen q - 1) < 2 powi (bitlen p) * 2 powi (bitlen q - 1)"
      using P(2) pw by (intro mult_strict_right_mono)
    also have "\<dots> \<le> 2 powi (bitlen p) * of_int q"
      using Q(1) pw by (intro mult_left_mono) (auto intro: less_imp_le)
    finally have "of_int p / of_int q < (2::rat) powi (bitlen p) / 2 powi (bitlen q - 1)"
      using qpos pw [of "bitlen q - 1"] by (simp add: field_simps)
    also have "\<dots> = 2 powi (?e0 + 1)"
      by (simp add: power_int_diff power_int_add)
    finally show ?thesis by (simp add: x)
  qed
  have lo: "2 powi (?e0 - 1) < \<bar>x\<bar>"
  proof -
    have "(2::rat) powi (bitlen p - 1) * of_int q < 2 powi (bitlen p - 1) * 2 powi (bitlen q)"
      using Q(2) pw by (intro mult_strict_left_mono)
    also have "\<dots> \<le> of_int p * 2 powi (bitlen q)"
      using P(1) pw by (intro mult_right_mono) (auto intro: less_imp_le)
    finally have "(2::rat) powi (bitlen p - 1) / 2 powi (bitlen q) < of_int p / of_int q"
      using qpos pw [of "bitlen q"] by (simp add: field_simps)
    moreover have "(2::rat) powi (bitlen p - 1) / 2 powi (bitlen q) = 2 powi (?e0 - 1)"
      by (simp add: power_int_diff)
    ultimately show ?thesis by (simp add: x)
  qed
  have il: "ilog2 x = pick_log \<bar>x\<bar> ?e0"
    by (simp add: ilog2_def pq)
  show "2 powi (ilog2 x) \<le> \<bar>x\<bar>"
    using lo by (auto simp: il pick_log_def two_powi_eq)
  show "\<bar>x\<bar> < 2 powi (ilog2 x + 1)"
    using up by (auto simp: il pick_log_def two_powi_eq)
qed


lemma ilog2_less:
  assumes "x \<noteq> 0" and "\<bar>x\<bar> < 2 powi k"
  shows "ilog2 x < k"
proof (rule ccontr)
  assume "\<not> ilog2 x < k"
  then have "k \<le> ilog2 x" by simp
  then have "(2::rat) powi k \<le> 2 powi (ilog2 x)"
    by (intro power_int_increasing) simp_all
  with ilog2_bounds(1) [OF assms(1)] assms(2) show False by simp
qed

lemma ilog2_ge:
  assumes "2 powi k \<le> \<bar>x\<bar>"
  shows "k \<le> ilog2 x"
proof (rule ccontr)
  assume "\<not> k \<le> ilog2 x"
  then have "ilog2 x + 1 \<le> k" by simp
  then have "(2::rat) powi (ilog2 x + 1) \<le> 2 powi k"
    by (intro power_int_increasing) simp_all
  moreover have "x \<noteq> 0"
  proof
    assume "x = 0"
    with assms have "(2::rat) powi k \<le> 0" by simp
    moreover have "(0::rat) < 2 powi k" by simp
    ultimately show False by linarith
  qed
  ultimately show False
    using ilog2_bounds(2) [of x] assms by simp
qed

lemma round_half_even_error: "\<bar>of_int (round_half_even q) - q\<bar> \<le> 1/2"
proof -
  have "of_int \<lfloor>q\<rfloor> \<le> q" "q < of_int \<lfloor>q\<rfloor> + 1"
    by linarith+
  then show ?thesis
    by (auto simp: round_half_even_def nearest_even_def frac_part_def)
qed

lemma round_to_error:
  assumes "0 < u"
  shows "\<bar>round_to u x - x\<bar> \<le> u / 2"
proof -
  have "round_to u x - x = (of_int (round_half_even (x / u)) - x / u) * u"
    using assms by (simp add: round_to_def field_simps)
  then have "\<bar>round_to u x - x\<bar> = \<bar>of_int (round_half_even (x / u)) - x / u\<bar> * u"
    using assms by (simp add: abs_mult)
  also have "\<dots> \<le> 1/2 * u"
    using round_half_even_error [of "x / u"] assms by (intro mult_right_mono) simp_all
  finally show ?thesis by simp
qed

lemma rd_error: "\<bar>rd x - x\<bar> \<le> 2 powi (max (ilog2 x) (- 1022) - 53)"
proof (cases "x = 0")
  case True
  then show ?thesis by (simp add: rd_def)
next
  case False
  let ?k = "max (ilog2 x) (- 1022) - 52"
  have "\<bar>rd x - x\<bar> \<le> 2 powi ?k / 2"
    using False round_to_error [of "2 powi ?k" x] by (simp add: rd_def two_powi_eq)
  also have "(2::rat) powi ?k / 2 = 2 powi (?k - 1)"
    by (simp add: power_int_diff)
  also have "?k - 1 = max (ilog2 x) (- 1022) - 53"
    by simp
  finally show ?thesis .
qed

text \<open>In the normal range the error is relative.\<close>

lemma rd_rel_error:
  assumes "2 powi (- 1022) \<le> \<bar>x\<bar>"
  shows "\<bar>rd x - x\<bar> \<le> \<bar>x\<bar> / 2 ^ 53"
proof -
  have x0: "x \<noteq> 0"
  proof
    assume "x = 0"
    with assms have "(2::rat) powi (- 1022) \<le> 0" by simp
    moreover have "(0::rat) < 2 powi (- 1022)" by (rule zero_less_power_int) simp
    ultimately show False by linarith
  qed
  from ilog2_ge [OF assms] have "max (ilog2 x) (- 1022) = ilog2 x"
    by simp
  with rd_error [of x] have "\<bar>rd x - x\<bar> \<le> 2 powi (ilog2 x - 53)"
    by simp
  also have "\<dots> = 2 powi (ilog2 x) / 2 ^ 53"
    by (simp add: power_int_diff)
  also have "\<dots> \<le> \<bar>x\<bar> / 2 ^ 53"
    using ilog2_bounds(1) [OF x0] by (simp add: divide_right_mono)
  finally show ?thesis .
qed

lemma overflow_Fin:
  assumes "\<bar>y\<bar> < 2 powi k" and "k \<le> 1024"
  shows "overflow y = Fin y"
proof (cases "y = 0")
  case True
  then show ?thesis by (simp add: overflow_def)
next
  case False
  from ilog2_less [OF False assms(1)] assms(2) have "ilog2 y < 1024"
    by simp
  with False show ?thesis by (simp add: overflow_def)
qed

lemma to_number_Fin:
  assumes "\<bar>rd x\<bar> < 2 powi k" and "k \<le> 1024"
  shows "to_number x = Fin (rd x)"
  using assms by (simp add: to_number_def overflow_Fin)

text \<open>Between 1 and \<open>2^60\<close> rounding moves a value by less than \<open>2^(-46)\<close> of it, and never to an infinity.\<close>

lemma to_number_mid:
  assumes "1 \<le> x" and "x \<le> 2 ^ 60"
  shows "\<exists>y. to_number x = Fin y \<and> \<bar>y - x\<bar> \<le> x / 2 ^ 53"
proof -
  have "(2::rat) powi (- 1022) \<le> 2 powi 0"
    by (rule power_int_increasing) simp_all
  with assms have n: "2 powi (- 1022) \<le> \<bar>x\<bar>"
    by simp
  from rd_rel_error [OF n] assms have e: "\<bar>rd x - x\<bar> \<le> x / 2 ^ 53"
    by simp
  have "x / 2 ^ 53 \<le> x"
    using assms by (simp add: field_simps)
  with e have "\<bar>rd x\<bar> \<le> 2 * x"
    by linarith
  also have "\<dots> \<le> 2 ^ 61"
    using assms by simp
  also have "\<dots> < (2::rat) powi 62"
    by simp
  finally have "to_number x = Fin (rd x)"
    by (rule to_number_Fin) simp
  with e show ?thesis by blast
qed


lemma round_half_even_of_int [simp]: "round_half_even (of_int m) = m"
  by (simp add: round_half_even_def nearest_even_def frac_part_def)

text \<open>An integer below \<open>2^53\<close> in magnitude is a Number.\<close>

lemma rd_of_int:
  assumes "\<bar>n\<bar> < 2 ^ 53"
  shows "rd (of_int n) = of_int n"
proof (cases "n = 0")
  case True
  then show ?thesis by (simp add: rd_def)
next
  case False
  let ?x = "of_int n :: rat"
  have x0: "?x \<noteq> 0" using False by simp
  have "1 \<le> \<bar>n\<bar>" using False by simp
  then have "(1::rat) \<le> \<bar>?x\<bar>"
    by (metis of_int_1 of_int_abs of_int_le_iff)
  then have "2 powi 0 \<le> \<bar>?x\<bar>" by simp
  then have lo: "0 \<le> ilog2 ?x" by (rule ilog2_ge)
  have "\<bar>?x\<bar> < of_int (2 ^ 53)"
    using assms by (metis of_int_abs of_int_less_iff)
  then have "\<bar>?x\<bar> < 2 powi 53" by simp
  from ilog2_less [OF x0 this] have hi: "ilog2 ?x \<le> 52" by simp
  define j where "j = nat (52 - ilog2 ?x)"
  have k: "max (ilog2 ?x) (- 1022) - 52 = - int j"
    using lo hi by (simp add: j_def)
  have u: "(2::rat) powi (- int j) = 1 / 2 ^ j"
    by (simp add: power_int_minus_divide)
  have "?x / (1 / 2 ^ j) = of_int (n * 2 ^ j)"
    by simp
  then have "round_to (1 / 2 ^ j) ?x = of_int (n * 2 ^ j) * (1 / 2 ^ j)"
    by (simp only: round_to_def round_half_even_of_int)
  also have "\<dots> = ?x" by simp
  finally show ?thesis
    using x0 by (simp add: rd_def two_powi_eq k u)
qed

lemma to_number_of_int:
  assumes "\<bar>n\<bar> < 2 ^ 53"
  shows "to_number (of_int n) = Fin (of_int n)"
proof -
  have "\<bar>of_int n :: rat\<bar> < of_int (2 ^ 53)"
    using assms by (metis of_int_abs of_int_less_iff)
  then have "\<bar>rd (of_int n)\<bar> < 2 powi 53"
    by (simp add: rd_of_int [OF assms])
  then have "to_number (of_int n) = Fin (rd (of_int n))"
    by (rule to_number_Fin) simp
  then show ?thesis by (simp add: rd_of_int [OF assms])
qed

lemma math_min_Fin [simp]: "math_min (Fin a) (Fin b) = Fin (min a b)"
  by (auto simp: math_min_def)

lemma math_max_Fin [simp]: "math_max (Fin a) (Fin b) = Fin (max a b)"
  by (auto simp: math_max_def)

lemma base_confidence:
  "num_mul (Fin 30) (if num_truthy (typeMultipliers t) then typeMultipliers t else lit 1)
     = Fin (of_int (base_points t))"
proof (cases t)
  case Reentrancy
  show ?thesis unfolding Reentrancy by code_simp
next
  case IntegerOverflow
  show ?thesis unfolding IntegerOverflow by code_simp
next
  case AccessControl
  show ?thesis unfolding AccessControl by code_simp
next
  case DelegateCall
  show ?thesis unfolding DelegateCall by code_simp
next
  case UncheckedCall
  show ?thesis unfolding UncheckedCall by code_simp
next
  case PriceOracle
  show ?thesis unfolding PriceOracle by code_simp
next
  case FlashLoan
  show ?thesis unfolding FlashLoan by code_simp
qed

lemma base_points_range: "30 \<le> base_points t" "base_points t \<le> 54"
  by (cases t; simp add: base_points_def)+

text \<open>The confidence of a finding is an integer: the base points plus 10 per match up to 30, minus 5 per protective match up to 20.\<close>

lemma calculateConfidence_value:
  "calculateConfidence t m src =
     Fin (of_int (base_points t + int (min (m * 10) 30) - int (min (protectionCount src * 5) 20)))"
proof -
  let ?k = "min (m * 10) 30" and ?p = "min (protectionCount src * 5) 20"
  note r = base_points_range [of t]
  have a: "num_add (Fin (of_int (base_points t))) (num_of_nat ?k) = Fin (of_int (base_points t + int ?k))"
  proof -
    have "\<bar>base_points t + int ?k\<bar> < 2 ^ 53" using r by simp
    from to_number_of_int [OF this] show ?thesis
      by (simp add: num_of_nat_def)
  qed
  have b: "num_sub (Fin (of_int (base_points t + int ?k))) (num_of_nat ?p)
             = Fin (of_int (base_points t + int ?k - int ?p))"
  proof -
    have "\<bar>base_points t + int ?k - int ?p\<bar> < 2 ^ 53" using r by simp
    from to_number_of_int [OF this] show ?thesis
      by (simp add: num_of_nat_def num_sub_def)
  qed
  have c: "5 \<le> base_points t + int ?k - int ?p" "base_points t + int ?k - int ?p \<le> 95"
    using r by simp_all
  have "calculateConfidence t m src =
          math_max (math_min (Fin (of_int (base_points t + int ?k - int ?p))) (Fin 95)) (Fin 5)"
    by (simp only: calculateConfidence_def Let_def base_confidence a b)
  also have "\<dots> = Fin (of_int (base_points t + int ?k - int ?p))"
    using c by (simp add: min_def max_def)
  finally show ?thesis .
qed

section \<open>The scanner and the selection\<close>


lemma scan_pattern_confidence:
  assumes "v \<in> set (scan_pattern src e)"
  shows "vconfidence v = calculateConfidence (vtype v) (vmatches v) src" and "0 < vmatches v"
    and "vtype v = fst e" and "vseverity v = pseverity (snd e)"
    and "vmatches v = length (match_global True (pattern (snd e)) src)"
  using assms by (auto simp: scan_pattern_def Let_def split: if_splits)

lemma vulnerabilities_eq:
  "vulnerabilities (analyzeForVulnerabilities src) = concat (map (scan_pattern src) patterns)"
  by (simp add: analyzeForVulnerabilities_def Let_def)

lemma finding_confidence:
  assumes "v \<in> set (vulnerabilities (analyzeForVulnerabilities src))"
  shows "\<exists>n. vconfidence v = Fin (of_int n) \<and> 20 \<le> n \<and> n \<le> 84"
proof -
  from assms obtain e where "v \<in> set (scan_pattern src e)"
    by (auto simp: vulnerabilities_eq)
  note s = scan_pattern_confidence(1,2) [OF this]
  let ?n = "base_points (vtype v) + int (min (vmatches v * 10) 30)
             - int (min (protectionCount src * 5) 20)"
  have "vconfidence v = Fin (of_int ?n)"
    by (simp only: s(1) calculateConfidence_value)
  moreover have "20 \<le> ?n" "?n \<le> 84"
    using base_points_range [of "vtype v"] s(2) by simp_all
  ultimately show ?thesis by blast
qed

lemma lit_deflators:
  "lit (8/10) = Fin (3602879701896397 / 4503599627370496)"
  "lit (7/10) = Fin (3152519739159347 / 4503599627370496)"
  "lit (6/10) = Fin (5404319552844595 / 9007199254740992)"
  by code_simp+

lemma deflated_range:
  assumes "20 \<le> n" and "n \<le> 84" and "59/100 \<le> r" and "r \<le> 81/100"
  shows "\<exists>c. num_mul (Fin (of_int n)) (Fin r) = Fin c \<and> 5 \<le> c \<and> c \<le> 95"
proof -
  let ?x = "of_int n * r :: rat"
  have n: "(20::rat) \<le> of_int n" "(of_int n :: rat) \<le> 84"
    using assms(1,2) by simp_all
  have lo: "11 \<le> ?x"
  proof -
    have "(11::rat) \<le> 20 * (59/100)" by simp
    also have "\<dots> \<le> of_int n * r"
      using n assms(3) by (intro mult_mono) simp_all
    finally show ?thesis .
  qed
  have hi: "?x \<le> 69"
  proof -
    have "of_int n * r \<le> 84 * (81/100 :: rat)"
      using n assms(3,4) by (intro mult_mono) simp_all
    also have "\<dots> \<le> 69" by simp
    finally show ?thesis .
  qed
  have "1 \<le> ?x" "?x \<le> 2 ^ 60"
    using lo hi by simp_all
  from to_number_mid [OF this] obtain y where y: "to_number ?x = Fin y" "\<bar>y - ?x\<bar> \<le> ?x / 2 ^ 53"
    by blast
  have "?x / 2 ^ 53 \<le> 1"
    using hi by simp
  with y(2) lo hi have "5 \<le> y" "y \<le> 95"
    by linarith+
  with y(1) show ?thesis by simp
qed

lemma strategy_origin:
  assumes "s \<in> set (exploitStrategies vs)"
  shows "\<exists>v \<in> set vs. generateExploitStrategy v = Some s"
  using assms by (auto simp: exploitStrategies_def split: option.splits)

lemma generated_confidence:
  assumes "generateExploitStrategy v = Some s" and "vconfidence v = Fin (of_int n)"
    and "20 \<le> n" and "n \<le> 84"
  shows "\<exists>c. sconfidence s = Fin c \<and> 5 \<le> c \<and> c \<le> 95"
proof -
  have plain: "\<exists>c. vconfidence v = Fin c \<and> 5 \<le> c \<and> c \<le> 95"
    using assms(2-4) by simp
  have d8: "\<exists>c. num_mul (vconfidence v) (lit (8/10)) = Fin c \<and> 5 \<le> c \<and> c \<le> 95"
    unfolding assms(2) lit_deflators using assms(3,4) by (intro deflated_range) simp_all
  have d7: "\<exists>c. num_mul (vconfidence v) (lit (7/10)) = Fin c \<and> 5 \<le> c \<and> c \<le> 95"
    unfolding assms(2) lit_deflators using assms(3,4) by (intro deflated_range) simp_all
  have d6: "\<exists>c. num_mul (vconfidence v) (lit (6/10)) = Fin c \<and> 5 \<le> c \<and> c \<le> 95"
    unfolding assms(2) lit_deflators using assms(3,4) by (intro deflated_range) simp_all
  from assms(1) have "s = (case vtype v of
      Reentrancy \<Rightarrow> generateReentrancyExploit v
    | DelegateCall \<Rightarrow> generateDelegateCallExploit v
    | AccessControl \<Rightarrow> generateAccessControlExploit v
    | IntegerOverflow \<Rightarrow> generateOverflowExploit v
    | PriceOracle \<Rightarrow> generatePriceOracleExploit v
    | UncheckedCall \<Rightarrow> generateUncheckedCallExploit v
    | FlashLoan \<Rightarrow> generateFlashLoanExploit v)"
    by (simp add: generateExploitStrategy_def)
  then show ?thesis
    using plain d8 d7 d6
    by (cases "vtype v")
       (simp_all add: generateReentrancyExploit_def generateDelegateCallExploit_def
          generateAccessControlExploit_def generateOverflowExploit_def
          generatePriceOracleExploit_def generateUncheckedCallExploit_def
          generateFlashLoanExploit_def)
qed


lemma strategy_confidence:
  assumes "s \<in> set (exploitStrategies (vulnerabilities (analyzeForVulnerabilities src)))"
  shows "\<exists>c. sconfidence s = Fin c \<and> 5 \<le> c \<and> c \<le> 95"
proof -
  from strategy_origin [OF assms] obtain v
    where v: "v \<in> set (vulnerabilities (analyzeForVulnerabilities src))" "generateExploitStrategy v = Some s"
    by blast
  from finding_confidence [OF v(1)] obtain n where "vconfidence v = Fin (of_int n)" "20 \<le> n" "n \<le> 84"
    by blast
  with v(2) show ?thesis
    by (rule generated_confidence)
qed

lemma mixed_findings:
  "vulnerabilities (analyzeForVulnerabilities mixed_source) =
     [\<lparr>vtype = IntegerOverflow, vseverity = SevHigh,
       vdescription = ''Potential integer overflow/underflow vulnerability'',
       vmatches = 1, vconfidence = Fin 43\<rparr>,
      delegate_finding]"
  by code_simp


text \<open>
  Claim C2: for every source text, the confidence of every finding of the scanner and of
  every strategy of the generators is a finite Number between 5 and 95, the deflating
  factors 0.8, 0.7 and 0.6 included.
\<close>

theorem confidence_in_range:
  "(\<forall>v \<in> set (vulnerabilities (analyzeForVulnerabilities src)).
       \<exists>c. vconfidence v = Fin c \<and> 5 \<le> c \<and> c \<le> 95)
   \<and> (\<forall>s \<in> set (exploitStrategies (vulnerabilities (analyzeForVulnerabilities src))).
       \<exists>c. sconfidence s = Fin c \<and> 5 \<le> c \<and> c \<le> 95)"
proof (intro conjI ballI)
  fix v assume "v \<in> set (vulnerabilities (analyzeForVulnerabilities src))"
  from finding_confidence [OF this] obtain n where "vconfidence v = Fin (of_int n)" "20 \<le> n" "n \<le> 84"
    by blast
  then show "\<exists>c. vconfidence v = Fin c \<and> 5 \<le> c \<and> c \<le> 95"
    by simp
next
  fix s assume "s \<in> set (exploitStrategies (vulnerabilities (analyzeForVulnerabilities src)))"
  then show "\<exists>c. sconfidence s = Fin c \<and> 5 \<le> c \<and> c \<le> 95"
    by (rule strategy_confidence)
qed

theorem confidence_in_range_witness:
  "delegate_finding \<in> set (vulnerabilities (analyzeForVulnerabilities mixed_source))
   \<and> (\<exists>c. vconfidence delegate_finding = Fin c \<and> 5 \<le> c \<and> c \<le> 95)
   \<and> delegate_strategy \<in> set (exploitStrategies (vulnerabilities (analyzeForVulnerabilities mixed_source)))
   \<and> (\<exists>c. sconfidence delegate_strategy = Fin c \<and> 5 \<le> c \<and> c \<le> 95)"
proof -
  have a: "delegate_finding \<in> set (vulnerabilities (analyzeForVulnerabilities mixed_source))"
    by (simp add: mixed_findings)
  have "generateExploitStrategy delegate_finding = Some delegate_strategy"
    by (simp add: generateExploitStrategy_def delegate_finding_def delegate_strategy_def)
  with a have b: "delegate_strategy \<in> set (exploitStrategies (vulnerabilities (analyzeForVulnerabilities mixed_source)))"
    by (simp add: exploitStrategies_def mixed_findings)
  from confidence_in_range [of mixed_source] a b show ?thesis
    by blast
qed



lemma filter_scan_pattern_other:
  "fst e \<noteq> T \<Longrightarrow> filter (\<lambda>v. vtype v = T) (scan_pattern src e) = []"
  by (simp add: scan_pattern_def Let_def)

lemma delegate_confidence:
  assumes "protectionCount src = 0"
  shows "calculateConfidence DelegateCall 1 src = Fin 64"
  by (simp add: calculateConfidence_value assms base_points_def)

text \<open>
  Claim C8, as stated, at a concrete input: the text \<open>count += 1; target.delegatecall(data);\<close>
  has one occurrence of the delegatecall signature and none of the protective
  signatures, and the scanner emits two findings, one of them for the compound assignment.
\<close>

theorem delegatecall_finding_counterexample:
  "length (match_global True (Lit (ustr ''delegatecall'')) mixed_source) = 1
   \<and> protectionCount mixed_source = 0
   \<and> length (vulnerabilities (analyzeForVulnerabilities mixed_source)) = 2"
proof -
  have "length (match_global True (Lit (ustr ''delegatecall'')) mixed_source) = 1
   \<and> protectionCount mixed_source = 0"
    by code_simp
  then show ?thesis
    by (simp add: mixed_findings)
qed

text \<open>
  Claim C8, amended: for every source text in which the delegatecall pattern matches
  exactly once and no protective pattern matches, the scanner emits exactly one finding
  of type delegateCall, with severity critical and confidence 64; it is the only finding
  when no pattern of another category matches the text.
\<close>

theorem delegatecall_finding:
  assumes "length (match_global True (Lit (ustr ''delegatecall'')) src) = 1"
    and "protectionCount src = 0"
  shows "filter (\<lambda>v. vtype v = DelegateCall) (vulnerabilities (analyzeForVulnerabilities src))
           = [delegate_finding]
    \<and> ((\<forall>e \<in> set patterns. fst e \<noteq> DelegateCall \<longrightarrow> match_global True (pattern (snd e)) src = [])
         \<longrightarrow> vulnerabilities (analyzeForVulnerabilities src) = [delegate_finding])"
proof -
  let ?e = "(DelegateCall,
        \<lparr>pattern = Lit (ustr ''delegatecall''),
         pseverity = SevCritical,
         pdescription = ''Dangerous delegatecall usage detected''\<rparr>)"
  from assms(1) have ne: "match_global True (Lit (ustr ''delegatecall'')) src \<noteq> []"
    by auto
  have d: "scan_pattern src ?e = [delegate_finding]"
    using ne assms(1) delegate_confidence [OF assms(2)]
    by (simp add: scan_pattern_def Let_def delegate_finding_def)
  have f: "filter (\<lambda>v. vtype v = DelegateCall) (vulnerabilities (analyzeForVulnerabilities src))
           = [delegate_finding]"
    by (simp add: vulnerabilities_eq patterns_def filter_scan_pattern_other d delegate_finding_def)
  have g: "vulnerabilities (analyzeForVulnerabilities src) = [delegate_finding]"
    if "\<forall>e \<in> set patterns. fst e \<noteq> DelegateCall \<longrightarrow> match_global True (pattern (snd e)) src = []"
  proof -
    have "scan_pattern src e = []" if "e \<in> set patterns" "fst e \<noteq> DelegateCall" for e
      using that \<open>\<forall>e \<in> set patterns. _\<close> by (simp add: scan_pattern_def)
    then show ?thesis
      using d by (simp add: vulnerabilities_eq patterns_def)
  qed
  from f g show ?thesis by blast
qed


lemma delegate_only:
  "length (match_global True (Lit (ustr ''delegatecall'')) delegate_source) = 1
   \<and> protectionCount delegate_source = 0
   \<and> list_all (\<lambda>e. fst e = DelegateCall \<or> match_global True (pattern (snd e)) delegate_source = []) patterns"
  by code_simp

theorem delegatecall_finding_witness:
  "length (match_global True (Lit (ustr ''delegatecall'')) delegate_source) = 1
   \<and> protectionCount delegate_source = 0
   \<and> filter (\<lambda>v. vtype v = DelegateCall) (vulnerabilities (analyzeForVulnerabilities delegate_source))
        = [delegate_finding]
   \<and> vulnerabilities (analyzeForVulnerabilities delegate_source) = [delegate_finding]"
proof -
  from delegate_only have a: "length (match_global True (Lit (ustr ''delegatecall'')) delegate_source) = 1"
    and b: "protectionCount delegate_source = 0"
    and c: "\<forall>e \<in> set patterns. fst e \<noteq> DelegateCall \<longrightarrow> match_global True (pattern (snd e)) delegate_source = []"
    by (auto simp: list_all_iff)
  from delegatecall_finding [OF a b] c a b show ?thesis
    by blast
qed

subsection \<open>The selection among the candidates\<close>








lemma scan_pattern_short: "length (scan_pattern src e) \<le> 1"
  by (simp add: scan_pattern_def Let_def)









section \<open>The revenue normalizer\<close>

subsection \<open>Rounding to two decimals\<close>



lemma overflow_positive: "num_greater (overflow z) (Fin 0) \<longleftrightarrow> 0 < z"
  by (auto simp: overflow_def num_greater_def)

lemma small_power: "(2::rat) powi (- 1022) \<le> 1 / 100"
proof -
  have "(2::rat) powi (- 1022) \<le> 2 powi (- 7)"
    by (rule power_int_increasing) simp_all
  also have "\<dots> \<le> 1 / 100"
    by (simp add: power_int_minus_divide)
  finally show ?thesis .
qed

text \<open>From a hundredth on, rounding keeps the sign.\<close>

lemma rd_sign:
  assumes "1 / 100 \<le> \<bar>y\<bar>"
  shows "0 < y \<Longrightarrow> 0 < rd y" and "y < 0 \<Longrightarrow> rd y < 0"
proof -
  from assms small_power have "2 powi (- 1022) \<le> \<bar>y\<bar>"
    by linarith
  from rd_rel_error [OF this] have e: "\<bar>rd y - y\<bar> \<le> \<bar>y\<bar> / 2 ^ 53" .
  have "\<bar>y\<bar> / 2 ^ 53 < \<bar>y\<bar>"
    using assms by (simp add: field_simps)
  with e have lt: "\<bar>rd y - y\<bar> < \<bar>y\<bar>"
    by linarith
  show "0 < y \<Longrightarrow> 0 < rd y" using lt by linarith
  show "y < 0 \<Longrightarrow> rd y < 0" using lt by linarith
qed

lemma fixed_digits_zero: "fixed_digits 2 x = 0 \<longleftrightarrow> \<bar>x\<bar> < 1 / 200"
proof -
  have "fixed_digits 2 x = 0 \<longleftrightarrow> 0 \<le> \<bar>x\<bar> * 100 + 1/2 \<and> \<bar>x\<bar> * 100 + 1/2 < 1"
    unfolding fixed_digits_def by (simp add: floor_eq_iff)
  also have "\<dots> \<longleftrightarrow> \<bar>x\<bar> < 1 / 200"
    by auto
  finally show ?thesis .
qed

lemma fixed_digits_pos: "0 \<le> fixed_digits 2 x"
  unfolding fixed_digits_def by simp




lemma to_fixed_positive:
  "num_greater (to_fixed 2 v) (Fin 0) \<longleftrightarrow> v = PInf \<or> (\<exists>x. v = Fin x \<and> 1 / 200 \<le> x)"
proof (cases v)
  case (Fin x)
  show ?thesis
  proof (cases "10 ^ 21 \<le> \<bar>x\<bar>")
    case True
    then show ?thesis using Fin by (auto simp: num_greater_def)
  next
    case False
    let ?n = "fixed_digits 2 x"
    let ?y = "(if x < 0 then - 1 else 1) * of_int ?n / 10 ^ 2 :: rat"
    have tf: "to_fixed 2 v = to_number ?y"
      using Fin False by simp
    have pos: "num_greater (to_fixed 2 v) (Fin 0) \<longleftrightarrow> 0 < rd ?y"
      by (simp only: tf to_number_def overflow_positive)
    show ?thesis
    proof (cases "?n = 0")
      case True
      then have "rd ?y = 0" by (simp add: rd_def)
      moreover from True have "\<bar>x\<bar> < 1 / 200" by (simp add: fixed_digits_zero)
      ultimately show ?thesis using Fin pos by auto
    next
      case nz: False
      with fixed_digits_pos [of x] have "1 \<le> ?n" by linarith
      then have n1: "(1::rat) \<le> of_int ?n" by simp
      then have big: "1 / 100 \<le> \<bar>?y\<bar>"
        by (simp add: abs_mult field_simps)
      from nz have far: "\<not> \<bar>x\<bar> < 1 / 200" by (simp add: fixed_digits_zero)
      show ?thesis
      proof (cases "x < 0")
        case True
        with n1 have "?y < 0" by simp
        from rd_sign(2) [OF big this] True Fin pos show ?thesis by auto
      next
        case False
        with n1 have "0 < ?y" by simp
        from rd_sign(1) [OF big this] False far Fin pos show ?thesis by auto
      qed
    qed
  qed
qed (simp_all add: num_greater_def)

subsection \<open>The list of entries and the totals\<close>

lemma normalizer_execute_fields:
  assumes "normalizer_execute env args = Inr out"
  shows "\<exists>gas. calculateGasCosts env (a_gasUsed args) (a_gasPrice args) (projr (getNativeTokenPrice env)) = Inr gas
      \<and> r_gasCosts out = gas
      \<and> totalValueUSD out = to_fixed 2 (fst (snd (normalize_all env (a_extractedTokens args) ([], Fin 0, Fin 0))))
      \<and> netProfitUSD out = to_fixed 2 (num_sub (fst (snd (normalize_all env (a_extractedTokens args) ([], Fin 0, Fin 0)))) (costUSD gas))
      \<and> isProfitable out = num_greater (num_sub (fst (snd (normalize_all env (a_extractedTokens args) ([], Fin 0, Fin 0)))) (costUSD gas)) (Fin 0)
      \<and> riskLevel (r_summary out) = assessRiskLevel (r_extractedTokens out)
           (num_sub (fst (snd (normalize_all env (a_extractedTokens args) ([], Fin 0, Fin 0)))) (costUSD gas))"
proof -
  obtain ns u v where na: "normalize_all env (a_extractedTokens args) ([], Fin 0, Fin 0) = (ns, u, v)"
    by (metis prod_cases3)
  from assms show ?thesis
    unfolding normalizer_execute_def Let_def na
    by (auto split: if_splits sum.splits)
qed



lemma normalize_all_fst:
  "fst (normalize_all env ts (acc, u, v)) =
     acc @ map (\<lambda>t. case normalizeToken env t of Inr n \<Rightarrow> n | Inl e \<Rightarrow> error_entry t e) ts"
  by (induction ts arbitrary: acc u v) (auto split: sum.splits)

lemma normalizeToken_address:
  "normalizeToken env t = Inr n \<Longrightarrow> n_address n = t_address t"
  unfolding normalizeToken_def Let_def
  by (auto split: sum.splits if_splits)

lemma normalizeToken_error:
  "normalizeToken env t = Inr n \<Longrightarrow> n_error n = None"
  unfolding normalizeToken_def Let_def
  by (auto split: sum.splits if_splits)

lemma normalizer_execute_tokens:
  assumes "normalizer_execute env args = Inr out"
  shows "r_extractedTokens out =
           map (\<lambda>t. case normalizeToken env t of Inr n \<Rightarrow> n | Inl e \<Rightarrow> error_entry t e)
               (a_extractedTokens args)"
proof -
  obtain ns u v where na: "normalize_all env (a_extractedTokens args) ([], Fin 0, Fin 0) = (ns, u, v)"
    by (metis prod_cases3)
  from assms na have "r_extractedTokens out = ns"
    unfolding normalizer_execute_def Let_def
    by (auto split: if_splits sum.splits)
  moreover have "ns = fst (normalize_all env (a_extractedTokens args) ([], Fin 0, Fin 0))"
    by (simp add: na)
  ultimately show ?thesis
    by (simp add: normalize_all_fst)
qed







lemma entry_unnamed:
  "normalizeToken sample_oracle (bare_token ''0xE'' ''6000000000000000000000'')
     = Inr (sample_entry ''0xE'' ''6000000000000000000000'' [] 6000 6000 2)"
  by code_simp

lemma large_run:
  "(case normalizer_execute sample_oracle large_input of
      Inl e \<Rightarrow> None
    | Inr out \<Rightarrow> Some (totalValueUSD out, netProfitUSD out, costUSD (r_gasCosts out)))
   = Some (Fin (6553600000000655 / 65536), Fin (6553599999980995 / 65536),
           Fin (5404319552844595 / 18014398509481984))"
  by code_simp

lemma sample_no_gas:
  "normalizer_valid (normalizer_input ts) \<Longrightarrow>
   normalizer_execute sample_oracle (normalizer_input ts) \<noteq> Inl e"
  by (auto simp: normalizer_execute_def normalizer_input_def sample_oracle_def calculateGasCosts_def
        optnum_truthy_def Let_def split: prod.splits)


lemma two_tokens_run:
  "normalizer_execute sample_oracle two_tokens
     = Inr (projr (normalizer_execute sample_oracle two_tokens))"
proof -
  have "normalizer_valid two_tokens"
    by (simp add: normalizer_valid_def two_tokens_def normalizer_input_def token_def bare_token_def)
  from sample_no_gas [OF this [unfolded two_tokens_def], folded two_tokens_def]
  show ?thesis
    by (cases "normalizer_execute sample_oracle two_tokens") auto
qed


subsection \<open>Length and order of the list\<close>

text \<open>
  Claim C10: the list of entries that the normalizer returns has the length of the input
  list, and its i-th entry is made of the i-th token: it carries that token's address,
  and it is the normalized token when the normalization of that token succeeds and the
  error entry of that token when it throws.
\<close>

theorem entries_in_order:
  assumes "normalizer_execute env args = Inr out"
  shows "length (r_extractedTokens out) = length (a_extractedTokens args)
    \<and> (\<forall>i < length (a_extractedTokens args).
          n_address (r_extractedTokens out ! i) = t_address (a_extractedTokens args ! i)
          \<and> (case normalizeToken env (a_extractedTokens args ! i) of
                Inr n \<Rightarrow> r_extractedTokens out ! i = n \<and> n_error n = None
              | Inl e \<Rightarrow> r_extractedTokens out ! i = error_entry (a_extractedTokens args ! i) e
                          \<and> n_error (r_extractedTokens out ! i) = Some (message e)))"
proof (intro conjI allI impI)
  note eq = normalizer_execute_tokens [OF assms]
  show "length (r_extractedTokens out) = length (a_extractedTokens args)"
    by (simp add: eq)
  fix i assume i: "i < length (a_extractedTokens args)"
  let ?t = "a_extractedTokens args ! i"
  have nth: "r_extractedTokens out ! i =
      (case normalizeToken env ?t of Inr n \<Rightarrow> n | Inl e \<Rightarrow> error_entry ?t e)"
    using i by (simp add: eq)
  show "n_address (r_extractedTokens out ! i) = t_address ?t"
  proof (cases "normalizeToken env ?t")
    case (Inl e)
    then show ?thesis by (simp add: nth error_entry_def)
  next
    case (Inr n)
    then show ?thesis by (simp add: nth normalizeToken_address)
  qed
  show "case normalizeToken env ?t of
          Inr n \<Rightarrow> r_extractedTokens out ! i = n \<and> n_error n = None
        | Inl e \<Rightarrow> r_extractedTokens out ! i = error_entry ?t e
                    \<and> n_error (r_extractedTokens out ! i) = Some (message e)"
  proof (cases "normalizeToken env ?t")
    case (Inl e)
    then show ?thesis by (simp add: nth error_entry_def)
  next
    case (Inr n)
    then show ?thesis by (simp add: nth normalizeToken_error)
  qed
qed


theorem entries_in_order_witness:
  "normalizer_execute sample_oracle two_tokens = Inr (projr (normalizer_execute sample_oracle two_tokens))
   \<and> length (r_extractedTokens (projr (normalizer_execute sample_oracle two_tokens))) = 2
   \<and> n_address (r_extractedTokens (projr (normalizer_execute sample_oracle two_tokens)) ! 1) = ustr ''0xBAD''"
proof -
  have a: "a_extractedTokens two_tokens = [token ''0xA'' ''1500000000000000000'' 18, bare_token ''0xBAD'' ''7'']"
    by (simp add: two_tokens_def normalizer_input_def)
  from entries_in_order [OF two_tokens_run] show ?thesis
    using two_tokens_run by (simp add: a bare_token_def)
qed

subsection \<open>A token that fails\<close>

lemma normalizeToken_value:
  assumes "normalizeToken env t = Inr n"
  shows "\<exists>amount d price. formatUnits env (t_amount t) d = Inr amount
           \<and> getTokenPrice env (t_address t) = Inr price
           \<and> n_valueUSD n = to_fixed 2 (num_mul (to_number amount) (p_priceUSD price))"
  using assms unfolding normalizeToken_def Let_def
  by (auto split: sum.splits if_splits)




subsection \<open>The risk level\<close>


lemma lit_impact: "lit (1/20) = Fin (3602879701896397 / 72057594037927936)"
  by code_simp

lemma impact_truthy:
  "(optnum_truthy p \<and> num_greater (the p) (lit (5/100)))
     = (case p of None \<Rightarrow> False | Some x \<Rightarrow> num_greater x (lit (5/100)))"
proof (cases p)
  case None
  then show ?thesis by (simp add: optnum_truthy_def)
next
  case (Some x)
  then show ?thesis
    by (cases x) (auto simp: optnum_truthy_def lit_impact num_greater_def)
qed

lemma unnamed_levels:
  "assessRiskLevel [sample_entry ''0xE'' ''6000000000000000000000'' [] 6000 6000 2] (Fin 6000) = RiskMedium
   \<and> spec_riskLevel (spec_riskScore [sample_entry ''0xE'' ''6000000000000000000000'' [] 6000 6000 2] (Fin 6000))
       = RiskLow"
  by code_simp

lemma unnamed_run:
  "(case normalizer_execute sample_oracle unnamed_input of
      Inl e \<Rightarrow> None
    | Inr out \<Rightarrow> Some (r_extractedTokens out, netProfitUSD out, riskLevel (r_summary out)))
   = Some ([sample_entry ''0xE'' ''6000000000000000000000'' [] 6000 6000 2], Fin 6000, RiskMedium)"
  by code_simp


text \<open>
  Claim C7, as stated, at a concrete input: the token contract at \<open>0xE\<close> returns an empty
  symbol, so its 6000 tokens are normalized without an error into an entry with an empty
  symbol; the net profit is 6000 USD. The normalizer reports the risk level medium; the
  formula of the claim gives the score 0 and the level low.
\<close>

theorem risk_score_counterexample:
  "normalizer_execute sample_oracle unnamed_input
     = Inr (projr (normalizer_execute sample_oracle unnamed_input))
   \<and> map n_error (r_extractedTokens (projr (normalizer_execute sample_oracle unnamed_input))) = [None]
   \<and> netProfitUSD (projr (normalizer_execute sample_oracle unnamed_input)) = Fin 6000
   \<and> riskLevel (r_summary (projr (normalizer_execute sample_oracle unnamed_input))) = RiskMedium
   \<and> spec_riskLevel (spec_riskScore
         (r_extractedTokens (projr (normalizer_execute sample_oracle unnamed_input)))
         (netProfitUSD (projr (normalizer_execute sample_oracle unnamed_input)))) = RiskLow"
proof (cases "normalizer_execute sample_oracle unnamed_input")
  case (Inl e)
  with unnamed_run show ?thesis by simp
next
  case (Inr out)
  with unnamed_run have "r_extractedTokens out = [sample_entry ''0xE'' ''6000000000000000000000'' [] 6000 6000 2]"
    and "netProfitUSD out = Fin 6000" and "riskLevel (r_summary out) = RiskMedium"
    by simp_all
  with Inr unnamed_levels show ?thesis
    by (simp add: sample_entry_def)
qed

text \<open>
  Claim C7, amended: the score is twice the number of tokens of low or very-low
  liquidity, plus three times the number of tokens with a price impact above 0.05, plus
  four times the number of tokens that have a non-empty error or lack a non-empty symbol,
  plus 2 if the net profit is below 1000 and 3 if it is below 100, and the level is taken
  from the score as the claim says. A token without an error adds to the last count
  exactly when its symbol is missing or empty. When every token without an error has a
  non-empty symbol and every error is non-empty, the score is the one of the claim.
\<close>

theorem risk_score_formula:
  "riskScore tokens net =
     2 * length (filter (\<lambda>t. n_liquidity t = LowLiquidity \<or> n_liquidity t = VeryLow) tokens)
     + 3 * length (filter (\<lambda>t. case n_priceImpact t of None \<Rightarrow> False
                                  | Some x \<Rightarrow> num_greater x (lit (5/100))) tokens)
     + 4 * length (filter (\<lambda>t. str_truthy (n_error t) \<or> \<not> str_truthy (n_symbol t)) tokens)
     + (if num_less net (Fin 1000) then 2 else 0)
     + (if num_less net (Fin 100) then 3 else 0)
   \<and> assessRiskLevel tokens net = spec_riskLevel (riskScore tokens net)
   \<and> ((\<forall>t \<in> set tokens. case n_error t of None \<Rightarrow> str_truthy (n_symbol t) | Some m \<Rightarrow> m \<noteq> [])
        \<longrightarrow> riskScore tokens net = spec_riskScore tokens net
            \<and> assessRiskLevel tokens net = spec_riskLevel (spec_riskScore tokens net))"
proof -
  have liq: "(\<lambda>t. n_liquidity t = VeryLow \<or> n_liquidity t = LowLiquidity)
               = (\<lambda>t. n_liquidity t = LowLiquidity \<or> n_liquidity t = VeryLow)"
    by auto
  have score: "riskScore tokens net =
     2 * length (filter (\<lambda>t. n_liquidity t = LowLiquidity \<or> n_liquidity t = VeryLow) tokens)
     + 3 * length (filter (\<lambda>t. case n_priceImpact t of None \<Rightarrow> False
                                  | Some x \<Rightarrow> num_greater x (lit (5/100))) tokens)
     + 4 * length (filter (\<lambda>t. str_truthy (n_error t) \<or> \<not> str_truthy (n_symbol t)) tokens)
     + (if num_less net (Fin 1000) then 2 else 0)
     + (if num_less net (Fin 100) then 3 else 0)"
    unfolding riskScore_def Let_def impact_truthy liq by simp
  have level: "assessRiskLevel tokens net = spec_riskLevel (riskScore tokens net)"
    by (simp add: assessRiskLevel_def spec_riskLevel_def Let_def)
  have agree: "riskScore tokens net = spec_riskScore tokens net"
    if "\<forall>t \<in> set tokens. case n_error t of None \<Rightarrow> str_truthy (n_symbol t) | Some m \<Rightarrow> m \<noteq> []"
  proof -
    have "filter (\<lambda>t. str_truthy (n_error t) \<or> \<not> str_truthy (n_symbol t)) tokens
            = filter (\<lambda>t. n_error t \<noteq> None) tokens"
      using that by (intro filter_cong) (auto simp: str_truthy_def split: option.splits)
    then show ?thesis
      by (simp add: score spec_riskScore_def)
  qed
  from score level agree show ?thesis by simp
qed


theorem risk_score_formula_witness:
  "n_error (sample_entry ''0xA'' ''0'' (ustr ''TKN'') 0 0 0) = None
   \<and> str_truthy (n_symbol (sample_entry ''0xA'' ''0'' (ustr ''TKN'') 0 0 0))
   \<and> riskScore [sample_entry ''0xA'' ''0'' (ustr ''TKN'') 0 0 0] (Fin 6000)
       = spec_riskScore [sample_entry ''0xA'' ''0'' (ustr ''TKN'') 0 0 0] (Fin 6000)
   \<and> assessRiskLevel [sample_entry ''0xA'' ''0'' (ustr ''TKN'') 0 0 0] (Fin 6000)
       = spec_riskLevel (spec_riskScore [sample_entry ''0xA'' ''0'' (ustr ''TKN'') 0 0 0] (Fin 6000))"
proof -
  have a: "n_error (sample_entry ''0xA'' ''0'' (ustr ''TKN'') 0 0 0) = None"
    by (simp add: sample_entry_def)
  have b: "str_truthy (n_symbol (sample_entry ''0xA'' ''0'' (ustr ''TKN'') 0 0 0))"
    by (simp add: sample_entry_def str_truthy_def ustr_def)
  from a b have "\<forall>t \<in> set [sample_entry ''0xA'' ''0'' (ustr ''TKN'') 0 0 0].
      case n_error t of None \<Rightarrow> str_truthy (n_symbol t) | Some m \<Rightarrow> m \<noteq> []"
    by simp
  with risk_score_formula [of "[sample_entry ''0xA'' ''0'' (ustr ''TKN'') 0 0 0]" "Fin 6000"] a b
  show ?thesis by blast
qed

subsection \<open>The profit flag\<close>

lemma dust_run:
  "(case normalizer_execute sample_oracle dust_input of
      Inl e \<Rightarrow> None
    | Inr out \<Rightarrow> Some (map n_valueUSD (r_extractedTokens out), costUSD (r_gasCosts out),
                        totalValueUSD out, netProfitUSD out, isProfitable out))
   = Some ([Fin (3602879701896397 / 36028797018963968), Fin (3602879701896397 / 18014398509481984)],
           Fin (5404319552844595 / 18014398509481984), Fin (5404319552844595 / 18014398509481984), Fin 0, True)"
  by code_simp


text \<open>
  Claim C6, as stated, at a concrete input: two tokens worth 0.10 and 0.20 USD and a gas
  cost of 0.30 USD. The sum of the two values is the Number above 0.3, the net profit
  before rounding is \<open>2 powi (-54)\<close>, and the record has \<open>isProfitable\<close> true with a
  reported \<open>netProfitUSD\<close> of 0.
\<close>

theorem profit_flag_counterexample:
  "normalizer_execute sample_oracle dust_input
     = Inr (projr (normalizer_execute sample_oracle dust_input))
   \<and> isProfitable (projr (normalizer_execute sample_oracle dust_input))
   \<and> netProfitUSD (projr (normalizer_execute sample_oracle dust_input)) = Fin 0
   \<and> \<not> num_greater (netProfitUSD (projr (normalizer_execute sample_oracle dust_input))) (Fin 0)"
proof (cases "normalizer_execute sample_oracle dust_input")
  case (Inl e)
  with dust_run show ?thesis by simp
next
  case (Inr out)
  with dust_run show ?thesis by (simp add: num_greater_def)
qed

text \<open>
  Claim C6, amended: \<open>isProfitable\<close> is true if and only if the net profit before the
  rounding for output, the accumulated total minus the reported gas cost, is greater than
  0; the reported \<open>netProfitUSD\<close> is that difference rounded to two decimals. So a
  reported \<open>netProfitUSD\<close> above 0 implies \<open>isProfitable\<close>, and \<open>isProfitable\<close> is true
  with a reported \<open>netProfitUSD\<close> that is not above 0 exactly when the difference lies
  strictly between 0 and 0.005.
\<close>

theorem profit_flag:
  assumes "normalizer_execute env args = Inr out"
  shows "\<exists>net. net = num_sub (fst (snd (normalize_all env (a_extractedTokens args) ([], Fin 0, Fin 0))))
                        (costUSD (r_gasCosts out))
      \<and> netProfitUSD out = to_fixed 2 net
      \<and> isProfitable out = num_greater net (Fin 0)
      \<and> (num_greater (netProfitUSD out) (Fin 0) \<longrightarrow> isProfitable out)
      \<and> (isProfitable out \<and> \<not> num_greater (netProfitUSD out) (Fin 0)
           \<longleftrightarrow> (\<exists>x. net = Fin x \<and> 0 < x \<and> x < 1 / 200))"
proof -
  let ?net = "num_sub (fst (snd (normalize_all env (a_extractedTokens args) ([], Fin 0, Fin 0))))
                        (costUSD (r_gasCosts out))"
  from normalizer_execute_fields [OF assms]
  have r: "netProfitUSD out = to_fixed 2 ?net" and p: "isProfitable out = num_greater ?net (Fin 0)"
    by auto
  have g: "num_greater ?net (Fin 0) \<longleftrightarrow> ?net = PInf \<or> (\<exists>x. ?net = Fin x \<and> 0 < x)"
    by (cases ?net) (simp_all add: num_greater_def)
  have a: "num_greater (netProfitUSD out) (Fin 0) \<longrightarrow> isProfitable out"
    unfolding r p g to_fixed_positive by auto
  have b: "isProfitable out \<and> \<not> num_greater (netProfitUSD out) (Fin 0)
           \<longleftrightarrow> (\<exists>x. ?net = Fin x \<and> 0 < x \<and> x < 1 / 200)"
    unfolding r p g to_fixed_positive by auto
  from r p a b show ?thesis by blast
qed


theorem profit_flag_witness:
  "normalizer_execute sample_oracle two_tokens = Inr (projr (normalizer_execute sample_oracle two_tokens))
   \<and> (\<exists>net. netProfitUSD (projr (normalizer_execute sample_oracle two_tokens)) = to_fixed 2 net
          \<and> isProfitable (projr (normalizer_execute sample_oracle two_tokens)) = num_greater net (Fin 0))"
  using profit_flag [OF two_tokens_run] two_tokens_run by blast

section \<open>The net profit and the reported totals\<close>

subsection \<open>Values of whole cents\<close>

lemma tiny_power: "(2::rat) powi (- 1022) \<le> 1"
  using small_power by simp

lemma rd_abs_error:
  assumes "\<bar>x\<bar> \<le> 2 ^ 31"
  shows "\<bar>rd x - x\<bar> \<le> 1 / 2 ^ 22"
proof (cases "2 powi (- 1022) \<le> \<bar>x\<bar>")
  case True
  from rd_rel_error [OF True] have "\<bar>rd x - x\<bar> \<le> \<bar>x\<bar> / 2 ^ 53" .
  also have "\<dots> \<le> 2 ^ 31 / 2 ^ 53"
    using assms by (intro divide_right_mono) simp_all
  also have "\<dots> = (1::rat) / 2 ^ 22" by simp
  finally show ?thesis .
next
  case False
  show ?thesis
  proof (cases "x = 0")
    case True
    then show ?thesis by (simp add: rd_def)
  next
    case x0: False
    from False have "\<bar>x\<bar> < 2 powi (- 1022)" by simp
    from ilog2_less [OF x0 this] have "max (ilog2 x) (- 1022) - 53 = - 1075"
      by simp
    with rd_error [of x] have "\<bar>rd x - x\<bar> \<le> 2 powi (- 1075)"
      by simp
    also have "(2::rat) powi (- 1075) \<le> 2 powi (- 22)"
      by (rule power_int_increasing) simp_all
    also have "\<dots> = 1 / 2 ^ 22"
      by (simp add: power_int_minus_divide)
    finally show ?thesis .
  qed
qed

lemma to_number_small:
  assumes "\<bar>x\<bar> \<le> 2 ^ 31"
  shows "to_number x = Fin (rd x)" and "\<bar>rd x - x\<bar> \<le> 1 / 2 ^ 22"
proof -
  show e: "\<bar>rd x - x\<bar> \<le> 1 / 2 ^ 22"
    using assms by (rule rd_abs_error)
  have "\<bar>rd x\<bar> \<le> \<bar>x\<bar> + 1 / 2 ^ 22"
    using e by linarith
  also have "\<dots> \<le> 2 ^ 31 + 1"
    using assms by simp
  also have "\<dots> < (2::rat) powi 32"
    by simp
  finally show "to_number x = Fin (rd x)"
    by (rule to_number_Fin) simp
qed

lemma to_number_Fin_D: "to_number y = Fin w \<Longrightarrow> w = rd y"
  by (auto simp: to_number_def overflow_def split: if_splits)

text \<open>A value that \<open>toFixed(2)\<close> has made, of at most a million, is within \<open>2^(-22)\<close> of a whole number of cents.\<close>

lemma fixed_is_cents:
  assumes "to_fixed 2 v = Fin w" and "\<bar>w\<bar> \<le> 10 ^ 6"
  shows "\<exists>k. \<bar>w - of_int k / 100\<bar> \<le> 1 / 2 ^ 22 \<and> \<bar>of_int k / 100 :: rat\<bar> \<le> 10 ^ 6 + 1"
proof (cases v)
  case (Fin x)
  show ?thesis
  proof (cases "10 ^ 21 \<le> \<bar>x\<bar>")
    case True
    with assms Fin show ?thesis by simp
  next
    case False
    define k where "k = (if x < 0 then - 1 else 1) * fixed_digits 2 x"
    define y :: rat where "y = of_int k / 100"
    have "to_fixed 2 v = to_number y"
      using Fin False by (simp add: y_def k_def)
    with assms(1) have w: "w = rd y"
      by (simp add: to_number_Fin_D)
    have small: "\<bar>y\<bar> \<le> 2 ^ 31"
    proof (rule ccontr)
      assume "\<not> \<bar>y\<bar> \<le> 2 ^ 31"
      then have big: "2 ^ 31 < \<bar>y\<bar>" by simp
      moreover have "(1::rat) \<le> 2 ^ 31" by simp
      ultimately have "2 powi (- 1022) \<le> \<bar>y\<bar>"
        using tiny_power by linarith
      from rd_rel_error [OF this] have "\<bar>rd y - y\<bar> \<le> \<bar>y\<bar> / 2 ^ 53" .
      moreover have "\<bar>y\<bar> / 2 ^ 53 \<le> \<bar>y\<bar> / 2"
        by (intro divide_left_mono) simp_all
      ultimately have "\<bar>y\<bar> / 2 \<le> \<bar>rd y\<bar>" by linarith
      with big have "2 ^ 30 < \<bar>rd y\<bar>" by simp
      with assms(2) w show False by simp
    qed
    from rd_abs_error [OF small] have e: "\<bar>w - y\<bar> \<le> 1 / 2 ^ 22"
      by (simp add: w)
    moreover have "(1::rat) / 2 ^ 22 \<le> 1" by simp
    ultimately have "\<bar>y\<bar> \<le> 10 ^ 6 + 1"
      using assms(2) by linarith
    with e show ?thesis
      unfolding y_def by blast
  qed
next
  case PInf
  with assms show ?thesis by simp
next
  case NInf
  with assms show ?thesis by simp
next
  case NaN
  with assms show ?thesis by simp
qed

text \<open>A value within a quarter of a cent of a whole number of cents is printed as that number.\<close>

lemma fixed_near_cents:
  assumes "\<bar>s - of_int K / 100\<bar> < 1 / 400" and "\<bar>s\<bar> < 10 ^ 21"
  shows "to_fixed 2 (Fin s) = to_number (of_int K / 100)"
proof -
  have d: "\<bar>s * 100 - of_int K\<bar> < 1 / 4"
    using assms(1) by (simp add: abs_if split: if_splits)
  have "\<bar>\<bar>s\<bar> * 100 - of_int \<bar>K\<bar>\<bar> < 1 / 4"
    using d by (simp add: abs_if split: if_splits)
  then have "of_int \<bar>K\<bar> \<le> \<bar>s\<bar> * 100 + 1 / 2" "\<bar>s\<bar> * 100 + 1 / 2 < of_int \<bar>K\<bar> + 1"
    by (simp_all add: abs_if split: if_splits)
  then have n: "fixed_digits 2 s = \<bar>K\<bar>"
    unfolding fixed_digits_def by (simp add: floor_unique)
  have "(if s < 0 then - 1 else 1) * of_int \<bar>K\<bar> = (of_int K :: rat)"
  proof (cases "K = 0")
    case True
    then show ?thesis by simp
  next
    case False
    then have "1 \<le> \<bar>K\<bar>" by simp
    then have k1: "(1::rat) \<le> \<bar>of_int K\<bar>"
      by (metis of_int_1 of_int_abs of_int_le_iff)
    show ?thesis
    proof (cases "0 < K")
      case True
      then have "(1::rat) \<le> of_int K" using k1 by simp
      with d have "0 < s" by (simp add: abs_if split: if_splits)
      with True show ?thesis by simp
    next
      case neg: False
      with False have "K < 0" by simp
      then have "(of_int K :: rat) \<le> - 1" using k1 by simp
      with d have "s < 0" by (simp add: abs_if split: if_splits)
      with \<open>K < 0\<close> show ?thesis by simp
    qed
  qed
  then show ?thesis
    using assms(2) by (simp add: n)
qed


lemma near_cents_zero: "near_cents 0 (Fin 0)"
  unfolding near_cents_def by (intro exI [of _ 0]) simp

lemma near_cents_mono:
  assumes "near_cents j u" and "j \<le> j'"
  shows "near_cents j' u"
proof -
  from assms(1) obtain s K where u: "u = Fin s"
    and e: "\<bar>s - of_int K / 100\<bar> \<le> of_nat j / 2 ^ 21"
    and b: "\<bar>of_int K / 100 :: rat\<bar> \<le> of_nat j * (10 ^ 6 + 1)"
    unfolding near_cents_def by blast
  have jj: "(of_nat j :: rat) \<le> of_nat j'"
    using assms(2) by simp
  have "(of_nat j :: rat) / 2 ^ 21 \<le> of_nat j' / 2 ^ 21"
    using jj by (intro divide_right_mono) simp_all
  moreover have "(of_nat j :: rat) * (10 ^ 6 + 1) \<le> of_nat j' * (10 ^ 6 + 1)"
    using jj by (intro mult_right_mono) simp_all
  ultimately show ?thesis
    unfolding near_cents_def using u e b
    by (intro exI [of _ s] exI [of _ K]) linarith
qed

text \<open>Adding a value of whole cents to a running total keeps the total near whole cents.\<close>

lemma near_cents_add:
  assumes "near_cents j u" and "j < 1000" and "to_fixed 2 v = Fin w" and "\<bar>w\<bar> \<le> 10 ^ 6"
  shows "near_cents (Suc j) (num_add u (Fin w))"
proof -
  from assms(1) obtain s K where u: "u = Fin s"
    and e: "\<bar>s - of_int K / 100\<bar> \<le> of_nat j / 2 ^ 21"
    and b: "\<bar>of_int K / 100 :: rat\<bar> \<le> of_nat j * (10 ^ 6 + 1)"
    unfolding near_cents_def by blast
  from fixed_is_cents [OF assms(3,4)] obtain k
    where ek: "\<bar>w - of_int k / 100\<bar> \<le> 1 / 2 ^ 22"
      and bk: "\<bar>of_int k / 100 :: rat\<bar> \<le> 10 ^ 6 + 1"
    by blast
  have "j \<le> 999" using assms(2) by simp
  then have "(of_nat j :: rat) \<le> of_nat 999"
    by (simp only: of_nat_le_iff)
  then have j: "(of_nat j :: rat) \<le> 999" by simp
  have j0: "(0::rat) \<le> of_nat j" by simp
  have e1: "(of_nat j :: rat) / 2 ^ 21 \<le> 1"
    using j by simp
  have b1: "(of_nat j :: rat) * (10 ^ 6 + 1) \<le> 999 * (10 ^ 6 + 1)"
    using j by (intro mult_right_mono) simp_all
  have "\<bar>s\<bar> \<le> 999 * (10 ^ 6 + 1) + 1"
    using e b e1 b1 by linarith
  with assms(4) have "\<bar>s + w\<bar> \<le> 2 ^ 31"
    by simp
  from to_number_small [OF this]
  have n: "to_number (s + w) = Fin (rd (s + w))" and r: "\<bar>rd (s + w) - (s + w)\<bar> \<le> 1 / 2 ^ 22"
    by simp_all
  have half: "(1::rat) / 2 ^ 22 + 1 / 2 ^ 22 = 1 / 2 ^ 21"
    by simp
  have sum: "(of_int (K + k) :: rat) / 100 = of_int K / 100 + of_int k / 100"
    by (simp add: add_divide_distrib)
  have suc: "(of_nat (Suc j) :: rat) / 2 ^ 21 = of_nat j / 2 ^ 21 + 1 / 2 ^ 21"
    by (simp add: add_divide_distrib)
  have suc': "(of_nat (Suc j) :: rat) * (10 ^ 6 + 1) = of_nat j * (10 ^ 6 + 1) + (10 ^ 6 + 1)"
    by (simp add: algebra_simps)
  have A: "\<bar>rd (s + w) - of_int (K + k) / 100\<bar> \<le> of_nat (Suc j) / 2 ^ 21"
    unfolding sum suc using r e ek half by linarith
  have B: "\<bar>of_int (K + k) / 100 :: rat\<bar> \<le> of_nat (Suc j) * (10 ^ 6 + 1)"
    unfolding sum suc' using b bk by linarith
  have "num_add u (Fin w) = Fin (rd (s + w))"
    using n u by simp
  with A B show ?thesis
    unfolding near_cents_def by blast
qed

lemma normalize_all_near_cents:
  assumes "near_cents j u" and "j + length ts \<le> 1000"
    and "\<And>t n. t \<in> set ts \<Longrightarrow> normalizeToken env t = Inr n
           \<Longrightarrow> \<exists>x. n_valueUSD n = Fin x \<and> \<bar>x\<bar> \<le> 10 ^ 6"
  shows "near_cents 1000 (fst (snd (normalize_all env ts (acc, u, v))))"
  using assms
proof (induction ts arbitrary: j acc u v)
  case Nil
  then show ?case by (simp add: near_cents_mono)
next
  case (Cons t ts)
  show ?case
  proof (cases "normalizeToken env t")
    case (Inl e)
    have "near_cents 1000 (fst (snd (normalize_all env ts (acc @ [error_entry t e], u, v))))"
    proof (rule Cons.IH [OF Cons.prems(1)])
      show "j + length ts \<le> 1000" using Cons.prems(2) by simp
    next
      fix t' n assume "t' \<in> set ts" "normalizeToken env t' = Inr n"
      then show "\<exists>x. n_valueUSD n = Fin x \<and> \<bar>x\<bar> \<le> 10 ^ 6"
        using Cons.prems(3) [of t' n] by simp
    qed
    with Inl show ?thesis by simp
  next
    case (Inr n)
    from Cons.prems(3) [of t n] Inr obtain x where x: "n_valueUSD n = Fin x" "\<bar>x\<bar> \<le> 10 ^ 6"
      by auto
    from normalizeToken_value [OF Inr] obtain val where "n_valueUSD n = to_fixed 2 val"
      by blast
    with x have f: "to_fixed 2 val = Fin x" by simp
    have "j < 1000" using Cons.prems(2) by simp
    from near_cents_add [OF Cons.prems(1) this f x(2)]
    have nc: "near_cents (Suc j) (num_add u (n_valueUSD n))"
      by (simp add: x)
    have "near_cents 1000
            (fst (snd (normalize_all env ts (acc @ [n], num_add u (n_valueUSD n), num_add v (n_valueETH n)))))"
    proof (rule Cons.IH [OF nc])
      show "Suc j + length ts \<le> 1000" using Cons.prems(2) by simp
    next
      fix t' n' assume "t' \<in> set ts" "normalizeToken env t' = Inr n'"
      then show "\<exists>x. n_valueUSD n' = Fin x \<and> \<bar>x\<bar> \<le> 10 ^ 6"
        using Cons.prems(3) [of t' n'] by simp
    qed
    with Inr show ?thesis by simp
  qed
qed

lemma to_fixed_Fin_zero: "to_fixed 2 (Fin 0) = Fin 0"
proof -
  have "fixed_digits 2 0 = 0"
    by (simp add: fixed_digits_zero)
  then show ?thesis
    by (simp add: to_number_def rd_def overflow_def)
qed

lemma gas_cost_cents:
  assumes "calculateGasCosts env gasUsed gasPrice nativeTokenPrice = Inr gas"
  shows "\<exists>v. costUSD gas = to_fixed 2 v"
proof (cases "\<not> optnum_truthy gasUsed \<or> \<not> str_truthy gasPrice \<or> \<not> num_truthy nativeTokenPrice")
  case True
  with assms have "costUSD gas = Fin 0"
    unfolding calculateGasCosts_def by auto
  then show ?thesis
    using to_fixed_Fin_zero by metis
next
  case False
  with assms show ?thesis
    unfolding calculateGasCosts_def Let_def
    by (auto split: sum.splits)
qed

subsection \<open>The identity between the three reported values\<close>

lemma modest_run:
  "(case normalizer_execute sample_oracle modest_input of
      Inl e \<Rightarrow> None
    | Inr out \<Rightarrow> Some (map n_valueUSD (r_extractedTokens out), costUSD (r_gasCosts out),
                        totalValueUSD out, netProfitUSD out))
   = Some ([Fin (4294976744928051 / 17179869184), Fin 0],
           Fin (5404319552844595 / 18014398509481984),
           Fin (4294976744928051 / 17179869184), Fin (1000001 / 4))"
  by code_simp

lemma large_difference:
  "num_sub (Fin (6553600000000655 / 65536)) (Fin (5404319552844595 / 18014398509481984))
     = Fin (6553599999980994 / 65536)"
  by code_simp

text \<open>
  Claim C5, as stated, at a concrete input: one token worth 100000000000.01 USD and a gas
  cost of 0.30 USD. The three reported values are the Numbers nearest to 100000000000.01,
  0.3 and 99999999999.71; the reported total minus the reported gas cost, computed exactly,
  is more than \<open>10^(-6)\<close> away from the reported net profit, and computed as a Number
  it is the neighbour of the reported net profit, \<open>2^(-16)\<close> below it.
\<close>

theorem net_profit_identity_counterexample:
  "normalizer_execute sample_oracle large_input
     = Inr (projr (normalizer_execute sample_oracle large_input))
   \<and> totalValueUSD (projr (normalizer_execute sample_oracle large_input))
       = Fin (6553600000000655 / 65536)
   \<and> costUSD (r_gasCosts (projr (normalizer_execute sample_oracle large_input)))
       = Fin (5404319552844595 / 18014398509481984)
   \<and> netProfitUSD (projr (normalizer_execute sample_oracle large_input))
       = Fin (6553599999980995 / 65536)
   \<and> (1::rat) / 10 ^ 6
       < \<bar>6553599999980995 / 65536 - (6553600000000655 / 65536 - 5404319552844595 / 18014398509481984)\<bar>
   \<and> num_sub (totalValueUSD (projr (normalizer_execute sample_oracle large_input)))
              (costUSD (r_gasCosts (projr (normalizer_execute sample_oracle large_input))))
       = Fin (6553599999980994 / 65536)"
proof (cases "normalizer_execute sample_oracle large_input")
  case (Inl e)
  with large_run show ?thesis by simp
next
  case (Inr out)
  with large_run large_difference show ?thesis by simp
qed

text \<open>
  Claim C5, amended: for an output record of at most 1000 entries, each with a
  \<open>valueUSD\<close> of at most a million in absolute value, and with a reported gas cost in USD
  of at most a million, the reported \<open>totalValueUSD\<close> and \<open>netProfitUSD\<close> are finite and
  the reported \<open>netProfitUSD\<close> equals the reported \<open>totalValueUSD\<close> minus the reported gas
  cost in USD to within \<open>10^(-6)\<close>.
\<close>

theorem net_profit_identity:
  assumes run: "normalizer_execute env args = Inr out"
    and len: "length (a_extractedTokens args) \<le> 1000"
    and vals: "\<forall>t \<in> set (r_extractedTokens out). \<exists>x. n_valueUSD t = Fin x \<and> \<bar>x\<bar> \<le> 10 ^ 6"
    and gas: "costUSD (r_gasCosts out) = Fin c" and gas_bound: "\<bar>c\<bar> \<le> 10 ^ 6"
  shows "\<exists>T N. totalValueUSD out = Fin T \<and> netProfitUSD out = Fin N
           \<and> \<bar>N - (T - c)\<bar> \<le> 1 / 10 ^ 6"
proof -
  define tot where "tot = fst (snd (normalize_all env (a_extractedTokens args) ([], Fin 0, Fin 0)))"
  from normalizer_execute_fields [OF run] obtain g
    where g: "calculateGasCosts env (a_gasUsed args) (a_gasPrice args) (projr (getNativeTokenPrice env)) = Inr g"
      and rg: "r_gasCosts out = g"
      and T: "totalValueUSD out = to_fixed 2 tot"
      and N: "netProfitUSD out = to_fixed 2 (num_sub tot (costUSD g))"
    unfolding tot_def by blast
  have toks: "r_extractedTokens out =
           map (\<lambda>t. case normalizeToken env t of Inr n \<Rightarrow> n | Inl e \<Rightarrow> error_entry t e)
               (a_extractedTokens args)"
    using run by (rule normalizer_execute_tokens)
  have "near_cents 1000 tot"
    unfolding tot_def
  proof (rule normalize_all_near_cents [OF near_cents_zero])
    show "0 + length (a_extractedTokens args) \<le> 1000" using len by simp
  next
    fix t n assume t: "t \<in> set (a_extractedTokens args)" and n: "normalizeToken env t = Inr n"
    have "n \<in> set (r_extractedTokens out)"
      unfolding toks using t n by (force simp: image_iff)
    with vals show "\<exists>x. n_valueUSD n = Fin x \<and> \<bar>x\<bar> \<le> 10 ^ 6"
      by blast
  qed
  then obtain s K where tot: "tot = Fin s"
    and e: "\<bar>s - of_int K / 100\<bar> \<le> of_nat 1000 / 2 ^ 21"
    and b: "\<bar>of_int K / 100 :: rat\<bar> \<le> of_nat 1000 * (10 ^ 6 + 1)"
    unfolding near_cents_def by blast
  from e have e': "\<bar>s - of_int K / 100\<bar> \<le> 1000 / 2097152" by simp
  from b have b': "\<bar>of_int K / 100 :: rat\<bar> \<le> 1000001000" by simp
  from gas_cost_cents [OF g] obtain v where "costUSD g = to_fixed 2 v"
    by blast
  with gas rg have "to_fixed 2 v = Fin c" by simp
  from fixed_is_cents [OF this gas_bound] obtain k
    where ek: "\<bar>c - of_int k / 100\<bar> \<le> 1 / 2 ^ 22"
      and bk: "\<bar>of_int k / 100 :: rat\<bar> \<le> 10 ^ 6 + 1"
    by blast
  from ek have ek': "\<bar>c - of_int k / 100\<bar> \<le> 1 / 4194304" by simp
  from bk have bk': "\<bar>of_int k / 100 :: rat\<bar> \<le> 1000001" by simp
  from gas_bound have c': "\<bar>c\<bar> \<le> 1000000" by simp
  \<comment> \<open>the reported total\<close>
  have "\<bar>s - of_int K / 100\<bar> < 1 / 400" using e' by linarith
  moreover have s': "\<bar>s\<bar> \<le> 1000001001" using e' b' by linarith
  then have "\<bar>s\<bar> < 10 ^ 21" by simp
  ultimately have "to_fixed 2 (Fin s) = to_number (of_int K / 100)"
    by (rule fixed_near_cents)
  moreover have "\<bar>of_int K / 100 :: rat\<bar> \<le> 2 ^ 31"
    by (rule order_trans [OF b']) simp
  note to_number_small [OF this]
  ultimately have T': "totalValueUSD out = Fin (rd (of_int K / 100))"
    and eT: "\<bar>rd (of_int K / 100) - of_int K / 100\<bar> \<le> 1 / 4194304"
    using T tot by simp_all
  \<comment> \<open>the difference\<close>
  have "\<bar>s - c\<bar> \<le> 1001001001" using s' c' by linarith
  then have "\<bar>s - c\<bar> \<le> 2 ^ 31" by simp
  from to_number_small [OF this]
  have net: "num_sub tot (costUSD g) = Fin (rd (s - c))"
    and en: "\<bar>rd (s - c) - (s - c)\<bar> \<le> 1 / 4194304"
    using tot gas rg by (simp_all add: num_sub_def)
  have diff: "(of_int (K - k) :: rat) / 100 = of_int K / 100 - of_int k / 100"
    by (simp add: diff_divide_distrib)
  have "\<bar>rd (s - c) - of_int (K - k) / 100\<bar> < 1 / 400"
    unfolding diff using en e' ek' by linarith
  moreover have "\<bar>rd (s - c)\<bar> \<le> 1001001002" using en s' c' by linarith
  then have "\<bar>rd (s - c)\<bar> < 10 ^ 21" by simp
  ultimately have "to_fixed 2 (Fin (rd (s - c))) = to_number (of_int (K - k) / 100)"
    by (rule fixed_near_cents)
  moreover have "\<bar>of_int K / 100 - of_int k / 100 :: rat\<bar> \<le> 1001001001"
    using b' bk' by linarith
  then have "\<bar>of_int (K - k) / 100 :: rat\<bar> \<le> 2 ^ 31"
    unfolding diff by simp
  note to_number_small [OF this]
  ultimately have N': "netProfitUSD out = Fin (rd (of_int (K - k) / 100))"
    and eN: "\<bar>rd (of_int (K - k) / 100) - of_int (K - k) / 100\<bar> \<le> 1 / 4194304"
    using N net by simp_all
  have "\<bar>rd (of_int (K - k) / 100) - (rd (of_int K / 100) - c)\<bar> \<le> 3 / 4194304"
    using eN eT ek' unfolding diff by linarith
  also have "\<dots> \<le> (1::rat) / 10 ^ 6" by simp
  finally show ?thesis
    using T' N' by blast
qed

theorem net_profit_identity_witness:
  "normalizer_execute sample_oracle modest_input
     = Inr (projr (normalizer_execute sample_oracle modest_input))
   \<and> length (a_extractedTokens modest_input) = 2
   \<and> map n_valueUSD (r_extractedTokens (projr (normalizer_execute sample_oracle modest_input)))
       = [Fin (4294976744928051 / 17179869184), Fin 0]
   \<and> costUSD (r_gasCosts (projr (normalizer_execute sample_oracle modest_input)))
       = Fin (5404319552844595 / 18014398509481984)
   \<and> (\<exists>T N. totalValueUSD (projr (normalizer_execute sample_oracle modest_input)) = Fin T
           \<and> netProfitUSD (projr (normalizer_execute sample_oracle modest_input)) = Fin N
           \<and> \<bar>N - (T - 5404319552844595 / 18014398509481984)\<bar> \<le> 1 / 10 ^ 6)"
proof (cases "normalizer_execute sample_oracle modest_input")
  case (Inl e)
  with modest_run show ?thesis by simp
next
  case (Inr out)
  with modest_run have vs: "map n_valueUSD (r_extractedTokens out)
       = [Fin (4294976744928051 / 17179869184), Fin 0]"
    and c: "costUSD (r_gasCosts out) = Fin (5404319552844595 / 18014398509481984)"
    by simp_all
  have len: "length (a_extractedTokens modest_input) = 2"
    by (simp add: modest_input_def)
  from vs obtain a b where ab: "r_extractedTokens out = [a, b]"
    and a: "n_valueUSD a = Fin (4294976744928051 / 17179869184)" and b: "n_valueUSD b = Fin 0"
    by auto
  have va: "\<exists>x. n_valueUSD a = Fin x \<and> \<bar>x\<bar> \<le> 10 ^ 6"
    by (rule exI [of _ "4294976744928051 / 17179869184"]) (simp add: a)
  have vb: "\<exists>x. n_valueUSD b = Fin x \<and> \<bar>x\<bar> \<le> 10 ^ 6"
    by (rule exI [of _ 0]) (simp add: b)
  have vals: "\<forall>t \<in> set (r_extractedTokens out). \<exists>x. n_valueUSD t = Fin x \<and> \<bar>x\<bar> \<le> 10 ^ 6"
    unfolding ab using va vb by simp
  have "\<exists>T N. totalValueUSD out = Fin T \<and> netProfitUSD out = Fin N
           \<and> \<bar>N - (T - 5404319552844595 / 18014398509481984)\<bar> \<le> 1 / 10 ^ 6"
    using net_profit_identity [OF Inr _ vals c] len by simp
  with Inr vs c len show ?thesis by simp
qed

section \<open>The tag of simulated results\<close>

lemma get_simulateExploitTest:
  "get (simulateExploitTest env strat) ''simulated'' = JUndefined"
  "get (simulateExploitTest env strat) ''simulationNote'' =
     JStr (ustr ''This is a simulated result - Forge not available'')"
  by (simp_all add: simulateExploitTest_def get_def Let_def)

lemma get_parseForgeOutput:
  "get (parseForgeOutput out err) ''simulated'' = JUndefined"
  "get (parseForgeOutput out err) ''simulationNote'' = JUndefined"
  by (simp_all add: parseForgeOutput_def get_def Let_def)

lemma get_failure_result:
  "get (failure_result e) ''simulated'' = JUndefined"
  "get (failure_result e) ''simulationNote'' = JUndefined"
  by (simp_all add: failure_result_def get_def)

lemma get_runForgeTest:
  "get (runForgeTest env) ''simulated'' = JUndefined"
  "get (runForgeTest env) ''simulationNote'' = JUndefined"
  by (simp_all add: runForgeTest_def get_parseForgeOutput get_failure_result
        split: option.splits sum.splits prod.splits)

lemma testExploit_sandbox:
  assumes "forgeAvailable env" and "testExploit env strat = Inr r"
  shows "r = runForgeTest env"
  using assms by (auto simp: testExploit_def Let_def split: option.splits)

text \<open>
  Claim C4, as stated, at a concrete input: with no \<open>forge\<close> on the machine the service
  takes the simulator path, and the result it returns has no property \<open>simulated\<close>, so
  the property is not \<open>true\<close>.
\<close>

theorem simulated_tag_counterexample:
  "\<not> forgeAvailable simulator_env
   \<and> testExploit simulator_env delegate_strategy
       = Inr (simulateExploitTest simulator_env delegate_strategy)
   \<and> get (simulateExploitTest simulator_env delegate_strategy) ''simulated'' \<noteq> JBool True"
  by (simp add: testExploit_def simulator_env_def get_simulateExploitTest)

text \<open>
  Claim C4, amended: whenever \<open>forge\<close> is not available the Forge service returns the
  result of the simulator, and it carries the property \<open>simulationNote\<close> with the text
  "This is a simulated result - Forge not available" and no property \<open>simulated\<close>; every
  result that the service returns from a run of \<open>forge\<close> carries neither property; for
  every strategy and every draw of \<open>Math.random\<close>.
\<close>

theorem simulation_note_tag:
  "(\<not> forgeAvailable env \<longrightarrow>
      (\<exists>r. testExploit env strat = Inr r
         \<and> get r ''simulationNote'' = JStr (ustr ''This is a simulated result - Forge not available'')
         \<and> get r ''simulated'' = JUndefined))
   \<and> (forgeAvailable env \<longrightarrow>
      (\<forall>r. testExploit env strat = Inr r \<longrightarrow>
         get r ''simulationNote'' = JUndefined \<and> get r ''simulated'' = JUndefined))"
proof (intro conjI impI allI)
  assume "\<not> forgeAvailable env"
  then show "\<exists>r. testExploit env strat = Inr r
         \<and> get r ''simulationNote'' = JStr (ustr ''This is a simulated result - Forge not available'')
         \<and> get r ''simulated'' = JUndefined"
    by (simp add: testExploit_def get_simulateExploitTest)
next
  fix r assume "forgeAvailable env" "testExploit env strat = Inr r"
  then have "r = runForgeTest env"
    by (rule testExploit_sandbox)
  then show "get r ''simulationNote'' = JUndefined" "get r ''simulated'' = JUndefined"
    by (simp_all add: get_runForgeTest)
qed

theorem simulation_note_tag_witness:
  "\<not> forgeAvailable simulator_env
   \<and> (\<exists>r. testExploit simulator_env delegate_strategy = Inr r
         \<and> get r ''simulationNote'' = JStr (ustr ''This is a simulated result - Forge not available'')
         \<and> get r ''simulated'' = JUndefined)
   \<and> forgeAvailable sandbox_env
   \<and> testExploit sandbox_env delegate_strategy = Inr (runForgeTest sandbox_env)
   \<and> get (runForgeTest sandbox_env) ''simulationNote'' = JUndefined
   \<and> get (runForgeTest sandbox_env) ''simulated'' = JUndefined"
proof -
  have a: "\<not> forgeAvailable simulator_env"
    by (simp add: simulator_env_def)
  have b: "forgeAvailable sandbox_env"
    by (simp add: sandbox_env_def)
  have c: "testExploit sandbox_env delegate_strategy = Inr (runForgeTest sandbox_env)"
    by (simp add: testExploit_def sandbox_env_def)
  from simulation_note_tag [of simulator_env delegate_strategy] a
  have d: "\<exists>r. testExploit simulator_env delegate_strategy = Inr r
         \<and> get r ''simulationNote'' = JStr (ustr ''This is a simulated result - Forge not available'')
         \<and> get r ''simulated'' = JUndefined"
    by blast
  from simulation_note_tag [of sandbox_env delegate_strategy] b c
  have e: "get (runForgeTest sandbox_env) ''simulationNote'' = JUndefined
         \<and> get (runForgeTest sandbox_env) ''simulated'' = JUndefined"
    by blast
  from a b c d e show ?thesis by blast
qed

section \<open>Discoveries and the execution result\<close>


lemma failure_result_success [simp]: "get (failure_result e) ''success'' = JBool False"
  by (simp add: failure_result_def get_def)

lemma runForgeTest_success: "\<exists>b. get (runForgeTest env) ''success'' = JBool b"
  by (auto simp: runForgeTest_def parseForgeOutput_def get_def Let_def failure_result_def
        split: option.splits sum.splits prod.splits)

lemma simulateExploitTest_success: "\<exists>b. get (simulateExploitTest env strat) ''success'' = JBool b"
  by (simp add: simulateExploitTest_def get_def Let_def)

lemma testExploit_success:
  assumes "testExploit env strat = Inr r"
  shows "\<exists>b. get r ''success'' = JBool b"
proof (cases "forgeAvailable env")
  case True
  from testExploit_sandbox [OF True assms] runForgeTest_success show ?thesis
    by simp
next
  case False
  with assms have "r = simulateExploitTest env strat"
    by (simp add: testExploit_def)
  with simulateExploitTest_success show ?thesis
    by simp
qed

lemma executeExploitStrategy_success:
  "\<exists>b. get (executeExploitStrategy env strat) ''success'' = JBool b"
proof (cases "testExploit env strat")
  case (Inl e)
  then show ?thesis
    by (auto simp: executeExploitStrategy_def)
next
  case (Inr r)
  from testExploit_success [OF Inr] obtain b where "get r ''success'' = JBool b"
    by blast
  with Inr show ?thesis
    by (simp add: executeExploitStrategy_def get_def)
qed

text \<open>\<open>exploitFound\<close> is the \<open>success\<close> of the execution result, a boolean.\<close>

lemma execute_exploitFound:
  assumes "execute env args = Inr (Executed r)"
  shows "exploitFound r = get (executionDetails r) ''success''"
    and "\<exists>b. exploitFound r = JBool b"
proof -
  from assms obtain best where
    r: "exploitFound r = get (executeExploitStrategy env best) ''success''"
       "executionDetails r = executeExploitStrategy env best"
    by (auto simp: execute_def Let_def split: if_splits option.splits)
  from r show "exploitFound r = get (executionDetails r) ''success''"
    by simp
  from r executeExploitStrategy_success [of env best] show "\<exists>b. exploitFound r = JBool b"
    by simp
qed

lemma execution_stage_execute:
  assumes "execution_stage env config = Inr x"
  shows "\<exists>args. execute (forge env) args = Inr x"
  using assms by (auto simp: execution_stage_def split: sum.splits option.splits)

lemma pipeline_outcome:
  assumes "executeAnalysisPipeline env sid config st = (res, st')"
  shows "sessions st' = sessions st"
    and "res \<noteq> None \<Longrightarrow> st' = st"
    and "res = None \<Longrightarrow> exploit_succeeded env config \<Longrightarrow> \<exists>d. discoveries st' = discoveries st @ [d]"
    and "res = None \<Longrightarrow> \<not> exploit_succeeded env config \<Longrightarrow> discoveries st' = discoveries st"
proof -
  show "sessions st' = sessions st"
    using assms
    by (auto simp: executeAnalysisPipeline_def split: sum.splits if_splits execution_output.splits option.splits)
  show "res \<noteq> None \<Longrightarrow> st' = st"
    using assms
    by (auto simp: executeAnalysisPipeline_def split: sum.splits if_splits execution_output.splits option.splits)
  show "\<exists>d. discoveries st' = discoveries st @ [d]" if "res = None" "exploit_succeeded env config"
  proof -
    from that(2) obtain r where r: "execution_stage env config = Inr (Executed r)"
      "get (executionDetails r) ''success'' = JBool True"
      by (auto simp: exploit_succeeded_def)
    from execution_stage_execute [OF r(1)] obtain args where "execute (forge env) args = Inr (Executed r)"
      by blast
    from execute_exploitFound(1) [OF this] r(2) have "truthy (exploitFound r)"
      by simp
    with assms that(1) r(1) show ?thesis
      by (auto simp: executeAnalysisPipeline_def split: sum.splits option.splits)
  qed
  show "discoveries st' = discoveries st" if "res = None" "\<not> exploit_succeeded env config"
  proof (cases "execution_stage env config")
    case (Inl e)
    with assms that(1) show ?thesis
      by (simp add: executeAnalysisPipeline_def)
  next
    case (Inr x)
    show ?thesis
    proof (cases x)
      case (Executed r)
      from execution_stage_execute [OF Inr] Executed obtain args
        where "execute (forge env) args = Inr (Executed r)"
        by blast
      from execute_exploitFound [OF this] obtain b
        where b: "exploitFound r = JBool b" "get (executionDetails r) ''success'' = JBool b"
        by auto
      from that(2) Inr Executed b(2) have "\<not> b"
        by (auto simp: exploit_succeeded_def)
      with assms Inr Executed b(1) show ?thesis
        by (simp add: executeAnalysisPipeline_def)
    next
      case NoVulnerabilities
      with assms Inr show ?thesis
        by (simp add: executeAnalysisPipeline_def)
    next
      case (NoStrategies vs)
      with assms Inr show ?thesis
        by (simp add: executeAnalysisPipeline_def)
    qed
  qed
qed


lemma updateMcpSession_discoveries:
  "discoveries (snd (updateMcpSession env sid status st)) = discoveries st"
  by (simp add: updateMcpSession_def split: option.splits)

lemma updateMcpSession_status:
  assumes "updateMcpSession env sid status st = (res, st')"
  shows "res \<noteq> None \<Longrightarrow> st' = st"
    and "res = None \<Longrightarrow> sessions st sid \<noteq> None \<Longrightarrow> sessions st' sid = Some status"
    and "res = None \<Longrightarrow> sessions st sid = None \<Longrightarrow> st' = st"
  using assms by (auto simp: updateMcpSession_def split: option.splits if_splits)

lemma on_failure_status:
  assumes "sessions st sid = Some s" and "s \<noteq> Completed"
  shows "sessions (snd (on_failure env sid e st)) sid \<noteq> Some Completed"
  using assms
  by (auto simp: on_failure_def updateMcpSession_def split: option.splits prod.splits)

text \<open>
  Claim C1: for every session that starts pending and ends completed, an exploit
  discovery is recorded if and only if the execution stage produced an execution result
  with \<open>success == true\<close>: one record is appended in that case, and the discoveries are
  unchanged otherwise, in particular on the two early returns of the execution tool.
\<close>

theorem discovery_iff_success:
  assumes "sessions st sid = Some Pending"
    and "sessions (snd (startAnalysis env sid config st)) sid = Some Completed"
  shows "((\<exists>d. discoveries (snd (startAnalysis env sid config st)) = discoveries st @ [d])
          \<longleftrightarrow> (\<exists>r. execution_stage env config = Inr (Executed r)
                  \<and> get (executionDetails r) ''success'' = JBool True))
    \<and> (discoveries (snd (startAnalysis env sid config st)) = discoveries st
          \<longleftrightarrow> \<not> (\<exists>r. execution_stage env config = Inr (Executed r)
                    \<and> get (executionDetails r) ''success'' = JBool True))"
proof -
  obtain r1 st1 where u1: "updateMcpSession env sid Running st = (r1, st1)"
    by (cases "updateMcpSession env sid Running st")
  obtain r2 st2 where p: "executeAnalysisPipeline env sid config st1 = (r2, st2)"
    by (cases "executeAnalysisPipeline env sid config st1")
  obtain r3 st3 where u3: "updateMcpSession env sid Completed st2 = (r3, st3)"
    by (cases "updateMcpSession env sid Completed st2")
  have r1: "r1 = None"
  proof (rule ccontr)
    assume "r1 \<noteq> None"
    then obtain e where e: "r1 = Some e" by blast
    with updateMcpSession_status(1) [OF u1] have "st1 = st" by simp
    with e u1 have "startAnalysis env sid config st = on_failure env sid e st"
      by (simp add: startAnalysis_def)
    with on_failure_status [OF assms(1), of env e] assms(2) show False by simp
  qed
  from updateMcpSession_status(2) [OF u1 r1] assms(1) have s1: "sessions st1 sid = Some Running"
    by simp
  note po = pipeline_outcome [OF p]
  from po(1) s1 have s2: "sessions st2 sid = Some Running"
    by simp
  have r2: "r2 = None"
  proof (rule ccontr)
    assume "r2 \<noteq> None"
    then obtain e where e: "r2 = Some e" by blast
    with u1 r1 p have "startAnalysis env sid config st = on_failure env sid e st2"
      by (simp add: startAnalysis_def)
    with on_failure_status [OF s2, of env e] assms(2) show False by simp
  qed
  have r3: "r3 = None"
  proof (rule ccontr)
    assume "r3 \<noteq> None"
    then obtain e where e: "r3 = Some e" by blast
    with updateMcpSession_status(1) [OF u3] have "st3 = st2" by simp
    with e u1 r1 p r2 u3 have "startAnalysis env sid config st = on_failure env sid e st2"
      by (simp add: startAnalysis_def)
    with on_failure_status [OF s2, of env e] assms(2) show False by simp
  qed
  from u1 r1 p r2 u3 r3 have fin: "snd (startAnalysis env sid config st) = st3"
    by (simp add: startAnalysis_def)
  have d3: "discoveries st3 = discoveries st2"
    using updateMcpSession_discoveries [of env sid Completed st2] u3 by simp
  have d1: "discoveries st1 = discoveries st"
    using updateMcpSession_discoveries [of env sid Running st] u1 by simp
  show ?thesis
  proof (cases "exploit_succeeded env config")
    case True
    from po(3) [OF r2 True] obtain d where "discoveries st2 = discoveries st1 @ [d]"
      by blast
    with True d1 d3 fin show ?thesis
      by (auto simp: exploit_succeeded_def)
  next
    case False
    from po(4) [OF r2 False] have "discoveries st2 = discoveries st1" .
    with False d1 d3 fin show ?thesis
      by (auto simp: exploit_succeeded_def)
  qed
qed


lemma sample_session_completed:
  "sessions (snd (startAnalysis sample_pipeline (ustr ''s1'') sample_config sample_store)) (ustr ''s1'')
     = Some Completed"
  by code_simp

theorem discovery_iff_success_witness:
  "sessions sample_store (ustr ''s1'') = Some Pending
   \<and> sessions (snd (startAnalysis sample_pipeline (ustr ''s1'') sample_config sample_store)) (ustr ''s1'')
       = Some Completed
   \<and> ((\<exists>d. discoveries (snd (startAnalysis sample_pipeline (ustr ''s1'') sample_config sample_store))
              = discoveries sample_store @ [d])
        \<longleftrightarrow> (\<exists>r. execution_stage sample_pipeline sample_config = Inr (Executed r)
                \<and> get (executionDetails r) ''success'' = JBool True))"
proof -
  have a: "sessions sample_store (ustr ''s1'') = Some Pending"
    by (simp add: sample_store_def)
  from discovery_iff_success [OF a sample_session_completed] a sample_session_completed
  show ?thesis by blast
qed


end
